theory Spec2Isabelle
  imports Main "HOL-Library.Word" "HOL-Library.AList"
begin

unbundle bit_operations_syntax

section \<open>The update controller (electron/main/updater.ts)\<close>

text \<open>
  \<open>UpdateStatus\<close> is the interface of the same name: a status tag and three optional
  payloads. The payload types \<open>UpdateInfo\<close> and \<open>ProgressInfo\<close> belong to the updater
  library and are left as the type parameters \<open>'i\<close> and \<open>'p\<close>; an absent optional field
  is \<open>None\<close>.
\<close>

datatype status_tag =
  Idle | Checking | Available | Not_available | Downloading | Downloaded | Error

record ('i, 'p) UpdateStatus =
  status :: status_tag
  info :: "'i option"
  progress :: "'p option"
  error :: "string option"

text \<open>\<open>Partial<UpdateStatus>\<close>: every field may be missing.\<close>

record ('i, 'p) PartialStatus =
  p_status :: "status_tag option"
  p_info :: "'i option"
  p_progress :: "'p option"
  p_error :: "string option"

text \<open>
  The six events of the updater library that \<open>setupListeners\<close> subscribes to, with their
  arguments (for \<open>error\<close> the argument is reduced to \<open>error.message\<close>, the only part the
  listener reads).
\<close>

datatype ('i, 'p) updater_event =
  Checking_for_update
| Update_available 'i
| Update_not_available 'i
| Download_progress 'p
| Update_downloaded 'i
| Updater_error string

text \<open>A \<open>BrowserWindow\<close> is reduced to what \<open>sendToRenderer\<close> asks of it.\<close>

record BrowserWindow =
  isDestroyed :: bool

text \<open>The two private fields of the class \<open>AppUpdater\<close>.\<close>

record ('i, 'p) AppUpdater =
  mainWindow :: "BrowserWindow option"
  this_status :: "('i, 'p) UpdateStatus"

text \<open>
  What a listener does besides changing the fields: a message on a channel of the
  renderer (\<open>webContents.send\<close>), or an event re-emitted on the \<open>AppUpdater\<close> itself
  (\<open>this.emit\<close>).
\<close>

datatype ('i, 'p) effect =
  Send_status_changed "('i, 'p) UpdateStatus"
| Emit "('i, 'p) updater_event"

definition new_AppUpdater :: "('i, 'p) AppUpdater" where
  "new_AppUpdater =
     \<lparr>mainWindow = None,
      this_status = \<lparr>status = Idle, info = None, progress = None, error = None\<rparr>\<rparr>"

definition setMainWindow :: "BrowserWindow \<Rightarrow> ('i, 'p) AppUpdater \<Rightarrow> ('i, 'p) AppUpdater" where
  "setMainWindow window u = u\<lparr>mainWindow := Some window\<rparr>"

definition getStatus :: "('i, 'p) AppUpdater \<Rightarrow> ('i, 'p) UpdateStatus" where
  "getStatus u = this_status u"

text \<open>
  The object spread \<open>{ ...this.status, ...newStatus }\<close>: a field present in the second
  operand replaces the one of the first, a field missing there keeps the old value.
\<close>

definition spread :: "('i, 'p) UpdateStatus \<Rightarrow> ('i, 'p) PartialStatus \<Rightarrow> ('i, 'p) UpdateStatus" where
  "spread old new =
     \<lparr>status = (case p_status new of Some s \<Rightarrow> s | None \<Rightarrow> status old),
      info = (case p_info new of Some i \<Rightarrow> Some i | None \<Rightarrow> info old),
      progress = (case p_progress new of Some p \<Rightarrow> Some p | None \<Rightarrow> progress old),
      error = (case p_error new of Some e \<Rightarrow> Some e | None \<Rightarrow> error old)\<rparr>"

definition sendToRenderer ::
  "('i, 'p) AppUpdater \<Rightarrow> ('i, 'p) UpdateStatus \<Rightarrow> ('i, 'p) effect list" where
  "sendToRenderer u data =
     (case mainWindow u of
        Some w \<Rightarrow> if \<not> isDestroyed w then [Send_status_changed data] else []
      | None \<Rightarrow> [])"

definition updateStatus ::
  "('i, 'p) PartialStatus \<Rightarrow> ('i, 'p) AppUpdater \<Rightarrow> ('i, 'p) AppUpdater \<times> ('i, 'p) effect list" where
  "updateStatus newStatus u =
     (let u' = u\<lparr>this_status := spread (this_status u) newStatus\<rparr>
      in (u', sendToRenderer u' (this_status u')))"

text \<open>The object literal each listener of \<open>setupListeners\<close> hands to \<open>updateStatus\<close>.\<close>

fun listener_arg :: "('i, 'p) updater_event \<Rightarrow> ('i, 'p) PartialStatus" where
  "listener_arg Checking_for_update =
     \<lparr>p_status = Some Checking, p_info = None, p_progress = None, p_error = None\<rparr>"
| "listener_arg (Update_available i) =
     \<lparr>p_status = Some Available, p_info = Some i, p_progress = None, p_error = None\<rparr>"
| "listener_arg (Update_not_available i) =
     \<lparr>p_status = Some Not_available, p_info = Some i, p_progress = None, p_error = None\<rparr>"
| "listener_arg (Download_progress p) =
     \<lparr>p_status = Some Downloading, p_info = None, p_progress = Some p, p_error = None\<rparr>"
| "listener_arg (Update_downloaded i) =
     \<lparr>p_status = Some Downloaded, p_info = Some i, p_progress = None, p_error = None\<rparr>"
| "listener_arg (Updater_error m) =
     \<lparr>p_status = Some Error, p_info = None, p_progress = None, p_error = Some m\<rparr>"

text \<open>
  One listener of \<open>setupListeners\<close> running on its event: \<open>updateStatus\<close>, then
  \<open>this.emit\<close> of the same event.
\<close>

definition on_event ::
  "('i, 'p) updater_event \<Rightarrow> ('i, 'p) AppUpdater \<Rightarrow> ('i, 'p) AppUpdater \<times> ('i, 'p) effect list" where
  "on_event e u =
     (case updateStatus (listener_arg e) u of (u', sent) \<Rightarrow> (u', sent @ [Emit e]))"

subsection \<open>The request handlers of \<open>registerUpdateHandlers\<close>\<close>

text \<open>
  \<open>autoUpdater.checkForUpdates()\<close> and \<open>autoUpdater.downloadUpdate()\<close> are calls into the
  updater library: what they do is a parameter. A call either rejects with an error or
  resolves; for the check, \<open>Resolves r\<close> carries the value of \<open>result?.updateInfo\<close>
  (\<open>None\<close> when it is undefined or null).
\<close>

datatype 'a outcome = Rejects string | Resolves 'a

definition checkForUpdates :: "'i option outcome \<Rightarrow> string + 'i option" where
  "checkForUpdates lib =
     (case lib of
        Resolves r \<Rightarrow> Inr r
      | Rejects e \<Rightarrow> Inr None)"

definition downloadUpdate :: "unit outcome \<Rightarrow> string + unit" where
  "downloadUpdate lib =
     (case lib of
        Resolves _ \<Rightarrow> Inr ()
      | Rejects e \<Rightarrow> Inl e)"

record 'i reply =
  success :: bool
  reply_info :: "'i option option"
  reply_error :: "string option"

text \<open>
  In \<open>reply_info\<close> the outer option says whether the reply has the field \<open>info\<close>, the
  inner one whether its value is an \<open>UpdateInfo\<close> or null.
\<close>

definition handle_update_check :: "'i option outcome \<Rightarrow> 'i reply" where
  "handle_update_check lib =
     (case checkForUpdates lib of
        Inr i \<Rightarrow> \<lparr>success = True, reply_info = Some i, reply_error = None\<rparr>
      | Inl e \<Rightarrow> \<lparr>success = False, reply_info = None, reply_error = Some e\<rparr>)"

definition handle_update_download :: "unit outcome \<Rightarrow> 'i reply" where
  "handle_update_download lib =
     (case downloadUpdate lib of
        Inr _ \<Rightarrow> \<lparr>success = True, reply_info = None, reply_error = None\<rparr>
      | Inl e \<Rightarrow> \<lparr>success = False, reply_info = None, reply_error = Some e\<rparr>)"

text \<open>
  Everything that can happen to the controller: an event of the updater library reaches
  its listener, or the renderer invokes one of the request channels, or the window is
  attached or destroyed. The request handlers call into the library and answer; none of
  them assigns \<open>this.status\<close>.
\<close>

datatype channel =
  Update_status | Update_version | Update_check | Update_download | Update_install
| Update_setChannel | Update_setAutoDownload

datatype ('i, 'p) input =
  Event "('i, 'p) updater_event"
| Request channel
| Set_window BrowserWindow
| Window_destroyed

definition destroy_window :: "('i, 'p) AppUpdater \<Rightarrow> ('i, 'p) AppUpdater" where
  "destroy_window u =
     u\<lparr>mainWindow := (case mainWindow u of Some w \<Rightarrow> Some (w\<lparr>isDestroyed := True\<rparr>) | None \<Rightarrow> None)\<rparr>"

fun step :: "('i, 'p) input \<Rightarrow> ('i, 'p) AppUpdater \<Rightarrow> ('i, 'p) AppUpdater \<times> ('i, 'p) effect list" where
  "step (Event e) u = on_event e u"
| "step (Request c) u = (u, [])"
| "step (Set_window w) u = (setMainWindow w u, [])"
| "step Window_destroyed u = (destroy_window u, [])"

fun run :: "('i, 'p) input list \<Rightarrow> ('i, 'p) AppUpdater \<Rightarrow> ('i, 'p) AppUpdater" where
  "run [] u = u"
| "run (x # xs) u = run xs (fst (step x u))"

text \<open>
  The status tag a listener writes, read off \<open>listener_arg\<close>, and the tag of a controller.
\<close>

fun target :: "('i, 'p) updater_event \<Rightarrow> status_tag" where
  "target Checking_for_update = Checking"
| "target (Update_available i) = Available"
| "target (Update_not_available i) = Not_available"
| "target (Download_progress p) = Downloading"
| "target (Update_downloaded i) = Downloaded"
| "target (Updater_error m) = Error"

definition tag :: "('i, 'p) AppUpdater \<Rightarrow> status_tag" where
  "tag u = status (this_status u)"

fun is_progress :: "('i, 'p) input \<Rightarrow> bool" where
  "is_progress (Event (Download_progress p)) = True"
| "is_progress _ = False"

definition window_live :: "('i, 'p) AppUpdater \<Rightarrow> bool" where
  "window_live u = (case mainWindow u of Some w \<Rightarrow> \<not> isDestroyed w | None \<Rightarrow> False)"

subsection \<open>The transitions as the specification lists them\<close>

text \<open>
  This relation is written from the specification's list of transitions, not from the
  code, to be compared with \<open>step\<close>: check from idle, not-available or error; update
  found and none found from checking; download requested from available; progress and
  completion from downloading; failure from any state. The check, the results, progress,
  completion and failure are the six events; the download request is the request channel
  \<open>update:download\<close>.
\<close>

fun spec_transition :: "status_tag \<Rightarrow> ('i, 'p) input \<Rightarrow> status_tag \<Rightarrow> bool" where
  "spec_transition s (Event Checking_for_update) s' =
     ((s = Idle \<or> s = Not_available \<or> s = Error) \<and> s' = Checking)"
| "spec_transition s (Event (Update_available i)) s' = (s = Checking \<and> s' = Available)"
| "spec_transition s (Event (Update_not_available i)) s' = (s = Checking \<and> s' = Not_available)"
| "spec_transition s (Request Update_download) s' = (s = Available \<and> s' = Downloading)"
| "spec_transition s (Event (Download_progress p)) s' = (s = Downloading \<and> s' = Downloading)"
| "spec_transition s (Event (Update_downloaded i)) s' = (s = Downloading \<and> s' = Downloaded)"
| "spec_transition s (Event (Updater_error m)) s' = (s' = Error)"
| "spec_transition s _ s' = False"

text \<open>
  The controller follows the relation at a state and an input when a change of its tag
  is a listed transition, and a transition listed for that state and input is taken.
\<close>

definition follows_spec :: "('i, 'p) AppUpdater \<Rightarrow> ('i, 'p) input \<Rightarrow> bool" where
  "follows_spec u x \<longleftrightarrow>
     (let s = tag u; s' = tag (fst (step x u))
      in (s' \<noteq> s \<longrightarrow> spec_transition s x s') \<and>
         (\<forall>t \<in> {Idle, Checking, Available, Not_available, Downloading, Downloaded, Error}.
            spec_transition s x t \<longrightarrow> s' = t))"

section \<open>The credential store (electron/utils/secure-storage.ts)\<close>

subsection \<open>Strings and buffers\<close>

text \<open>
  A JavaScript string is a sequence of 16-bit code units: \<open>length\<close>, \<open>substring\<close> and
  \<open>repeat\<close> count code units. A \<open>Buffer\<close> is a sequence of bytes. \<open>js\<close> turns an ASCII
  literal into a JavaScript string.
\<close>

type_synonym code_unit = "16 word"
type_synonym jsstring = "code_unit list"
type_synonym byte = "8 word"
type_synonym buffer = "byte list"

definition js :: "string \<Rightarrow> jsstring" where
  "js s = map (\<lambda>c. of_nat (of_char c)) s"

text \<open>
  \<open>Buffer.from(s)\<close> encodes a string in UTF-8 (a surrogate pair becomes one four-byte
  sequence, a surrogate on its own the three bytes of U+FFFD), and
  \<open>buf.toString('utf-8')\<close> decodes it, replacing every ill-formed sequence by U+FFFD.
  Both belong to the runtime, not to the repository; they are written out here on
  numbers, following the Unicode and WHATWG definitions of the encoding.
\<close>

fun utf8_units :: "nat list \<Rightarrow> nat list" where
  "utf8_units [] = []"
| "utf8_units [u] =
     (if u < 0x80 then [u]
      else if u < 0x800 then [0xC0 + u div 64, 0x80 + u mod 64]
      else if 0xD800 \<le> u \<and> u < 0xE000 then [0xEF, 0xBF, 0xBD]
      else [0xE0 + u div 4096, 0x80 + u div 64 mod 64, 0x80 + u mod 64])"
| "utf8_units (u # v # vs) =
     (if u < 0x80 then u # utf8_units (v # vs)
      else if u < 0x800 then [0xC0 + u div 64, 0x80 + u mod 64] @ utf8_units (v # vs)
      else if 0xD800 \<le> u \<and> u < 0xDC00 \<and> 0xDC00 \<le> v \<and> v < 0xE000 then
        (let cp = 0x10000 + (u - 0xD800) * 1024 + (v - 0xDC00)
         in [0xF0 + cp div 262144, 0x80 + cp div 4096 mod 64,
             0x80 + cp div 64 mod 64, 0x80 + cp mod 64] @ utf8_units vs)
      else if 0xD800 \<le> u \<and> u < 0xE000 then [0xEF, 0xBF, 0xBD] @ utf8_units (v # vs)
      else [0xE0 + u div 4096, 0x80 + u div 64 mod 64, 0x80 + u mod 64] @ utf8_units (v # vs))"

definition utf8_encode :: "jsstring \<Rightarrow> buffer" where
  "utf8_encode s = map of_nat (utf8_units (map unat s))"

text \<open>
  The decoder's state: the code point collected so far, the number of continuation bytes
  still needed, and the range the next continuation byte must lie in.
\<close>

record utf8_state =
  code_point :: nat
  needed :: nat
  lower :: nat
  upper :: nat

definition utf8_start :: utf8_state where
  "utf8_start = \<lparr>code_point = 0, needed = 0, lower = 0x80, upper = 0xBF\<rparr>"

definition utf16_units :: "nat \<Rightarrow> nat list" where
  "utf16_units cp =
     (if cp < 0x10000 then [cp]
      else [0xD800 + (cp - 0x10000) div 1024, 0xDC00 + (cp - 0x10000) mod 1024])"

text \<open>A byte read with no sequence open: what is emitted, and the state after it.\<close>

definition utf8_lead :: "nat \<Rightarrow> nat list \<times> utf8_state" where
  "utf8_lead b =
     (if b < 0x80 then ([b], utf8_start)
      else if 0xC2 \<le> b \<and> b \<le> 0xDF then
        ([], \<lparr>code_point = b mod 32, needed = 1, lower = 0x80, upper = 0xBF\<rparr>)
      else if 0xE0 \<le> b \<and> b \<le> 0xEF then
        ([], \<lparr>code_point = b mod 16, needed = 2,
              lower = (if b = 0xE0 then 0xA0 else 0x80),
              upper = (if b = 0xED then 0x9F else 0xBF)\<rparr>)
      else if 0xF0 \<le> b \<and> b \<le> 0xF4 then
        ([], \<lparr>code_point = b mod 8, needed = 3,
              lower = (if b = 0xF0 then 0x90 else 0x80),
              upper = (if b = 0xF4 then 0x8F else 0xBF)\<rparr>)
      else ([0xFFFD], utf8_start))"

fun utf8_bytes :: "utf8_state \<Rightarrow> nat list \<Rightarrow> nat list" where
  "utf8_bytes st [] = (if needed st \<noteq> 0 then [0xFFFD] else [])"
| "utf8_bytes st (b # bs) =
     (if needed st = 0 then
        (case utf8_lead b of (out, st') \<Rightarrow> out @ utf8_bytes st' bs)
      else if lower st \<le> b \<and> b \<le> upper st then
        (let cp = code_point st * 64 + b mod 64
         in if needed st = 1 then utf16_units cp @ utf8_bytes utf8_start bs
            else utf8_bytes \<lparr>code_point = cp, needed = needed st - 1,
                              lower = 0x80, upper = 0xBF\<rparr> bs)
      else
        (case utf8_lead b of (out, st') \<Rightarrow> 0xFFFD # out @ utf8_bytes st' bs))"

definition utf8_decode :: "buffer \<Rightarrow> jsstring" where
  "utf8_decode buf = map of_nat (utf8_bytes utf8_start (map unat buf))"

text \<open>
  A string is well formed when every surrogate is half of a pair: a high surrogate is
  followed by a low one, and a low one follows a high one. These are the strings that
  UTF-8 can carry.
\<close>

fun well_formed_units :: "nat list \<Rightarrow> bool" where
  "well_formed_units [] = True"
| "well_formed_units [u] = (\<not> (0xD800 \<le> u \<and> u < 0xE000))"
| "well_formed_units (u # v # vs) =
     (if 0xD800 \<le> u \<and> u < 0xDC00 then 0xDC00 \<le> v \<and> v < 0xE000 \<and> well_formed_units vs
      else \<not> (0xDC00 \<le> u \<and> u < 0xE000) \<and> well_formed_units (v # vs))"

definition well_formed :: "jsstring \<Rightarrow> bool" where
  "well_formed s = well_formed_units (map unat s)"

text \<open>
  \<open>buf.toString('base64')\<close> is the standard alphabet of RFC 4648 with padding.
  \<open>Buffer.from(s, 'base64')\<close> reads the low byte of every code unit, accepts the
  standard and the URL-safe alphabet, skips any other character, stops at the first
  padding character and drops an incomplete last sextet. The character \<open>=\<close> is 61.
\<close>

definition b64_char :: "nat \<Rightarrow> nat" where
  "b64_char n =
     (if n < 26 then 65 + n else if n < 52 then 71 + n else if n < 62 then n - 4
      else if n = 62 then 43 else 47)"

definition unbase64 :: "nat \<Rightarrow> nat option" where
  "unbase64 c =
     (if 65 \<le> c \<and> c \<le> 90 then Some (c - 65)
      else if 97 \<le> c \<and> c \<le> 122 then Some (c - 71)
      else if 48 \<le> c \<and> c \<le> 57 then Some (c + 4)
      else if c = 43 \<or> c = 45 then Some 62
      else if c = 47 \<or> c = 95 then Some 63
      else None)"

fun b64_chars :: "nat list \<Rightarrow> nat list" where
  "b64_chars (a # b # c # bs) =
     [b64_char (a div 4), b64_char (a mod 4 * 16 + b div 16),
      b64_char (b mod 16 * 4 + c div 64), b64_char (c mod 64)] @ b64_chars bs"
| "b64_chars [a, b] =
     [b64_char (a div 4), b64_char (a mod 4 * 16 + b div 16), b64_char (b mod 16 * 4), 61]"
| "b64_chars [a] = [b64_char (a div 4), b64_char (a mod 4 * 16), 61, 61]"
| "b64_chars [] = []"

definition base64_encode :: "buffer \<Rightarrow> jsstring" where
  "base64_encode buf = map of_nat (b64_chars (map unat buf))"

fun b64_sextets :: "nat list \<Rightarrow> nat list" where
  "b64_sextets [] = []"
| "b64_sextets (c # cs) =
     (if c = 61 then []
      else (case unbase64 c of Some v \<Rightarrow> v # b64_sextets cs | None \<Rightarrow> b64_sextets cs))"

fun b64_bytes :: "nat list \<Rightarrow> nat list" where
  "b64_bytes (a # b # c # d # vs) =
     [a * 4 + b div 16, b mod 16 * 16 + c div 4, c mod 4 * 64 + d] @ b64_bytes vs"
| "b64_bytes [a, b, c] = [a * 4 + b div 16, b mod 16 * 16 + c div 4]"
| "b64_bytes [a, b] = [a * 4 + b div 16]"
| "b64_bytes _ = []"

definition base64_decode :: "jsstring \<Rightarrow> buffer" where
  "base64_decode s = map of_nat (b64_bytes (b64_sextets (map (\<lambda>c. unat c mod 256) s)))"

subsection \<open>The platform and the two stores\<close>

text \<open>
  \<open>safeStorage\<close> and the persistence library are outside the repository. The platform
  record says what they do during one call: whether encryption is available, what
  \<open>encryptString\<close> and \<open>decryptString\<close> return (\<open>None\<close> when they throw), and whether
  opening and reading (\<open>getStore()\<close>, \<open>s.get\<close>) and writing (\<open>s.set\<close>, \<open>s.delete\<close>) succeed
  on the store of the keys and on the store of the providers.
\<close>

record platform =
  isEncryptionAvailable :: bool
  encryptString :: "jsstring \<Rightarrow> buffer option"
  decryptString :: "buffer \<Rightarrow> jsstring option"
  keys_readable :: bool
  keys_writable :: bool
  providers_readable :: bool
  providers_writable :: bool

datatype provider_type = Anthropic | Openai | Google | Openrouter | Ollama | Custom

record ProviderConfig =
  provider_id :: jsstring
  name :: jsstring
  provider_type :: provider_type
  baseUrl :: "jsstring option"
  model :: "jsstring option"
  enabled :: bool
  createdAt :: jsstring
  updatedAt :: jsstring

subsection \<open>Objects used as dictionaries\<close>

text \<open>
  Both stores keep an ordinary object (\<open>Record<string, _>\<close>) that the persistence
  library has parsed from JSON, so its prototype is \<open>Object.prototype\<close>. The object is
  the association list of its own properties in insertion order, and the operations
  of the language on it are written out:
  \<^item> \<open>obj[k]\<close> is the own property \<open>k\<close>; failing that the member of that name
    inherited from the prototype (a function, or for \<open>__proto__\<close> the prototype
    itself: truthy, and not a string); failing that \<open>undefined\<close>;
  \<^item> \<open>obj[k] = v\<close> writes the own property, except that for \<open>__proto__\<close>, when it is
    not an own property, the assignment goes to the setter of the prototype and
    leaves the own properties as they are;
  \<^item> \<open>delete obj[k]\<close> removes an own property;
  \<^item> \<open>k in obj\<close> holds of own and of inherited names;
  \<^item> \<open>Object.keys\<close> and \<open>Object.values\<close> list the own properties, the array indices
    (canonical numerals below \<open>2^32 - 1\<close>) first in ascending order, then the other
    names in insertion order.
\<close>

definition object_prototype_names :: "jsstring list" where
  "object_prototype_names =
     map js [''constructor'', ''__defineGetter__'', ''__defineSetter__'', ''hasOwnProperty'',
             ''__lookupGetter__'', ''__lookupSetter__'', ''isPrototypeOf'',
             ''propertyIsEnumerable'', ''toString'', ''valueOf'', ''__proto__'',
             ''toLocaleString'']"

definition is_inherited :: "jsstring \<Rightarrow> bool" where
  "is_inherited k = (k \<in> set object_prototype_names)"

datatype 'v member = Own 'v | Inherited | Absent

definition obj_get :: "(jsstring \<times> 'v) list \<Rightarrow> jsstring \<Rightarrow> 'v member" where
  "obj_get obj k =
     (case map_of obj k of
        Some v \<Rightarrow> Own v
      | None \<Rightarrow> if is_inherited k then Inherited else Absent)"

definition obj_set :: "(jsstring \<times> 'v) list \<Rightarrow> jsstring \<Rightarrow> 'v \<Rightarrow> (jsstring \<times> 'v) list" where
  "obj_set obj k v =
     (if k = js ''__proto__'' \<and> map_of obj k = None then obj else AList.update k v obj)"

definition obj_delete :: "(jsstring \<times> 'v) list \<Rightarrow> jsstring \<Rightarrow> (jsstring \<times> 'v) list" where
  "obj_delete obj k = AList.delete k obj"

definition obj_in :: "jsstring \<Rightarrow> (jsstring \<times> 'v) list \<Rightarrow> bool" where
  "obj_in k obj = (k \<in> set (map fst obj) \<or> is_inherited k)"

definition index_number :: "jsstring \<Rightarrow> int" where
  "index_number k = foldl (\<lambda>n c. 10 * n + (uint c - 48)) 0 k"

definition is_array_index :: "jsstring \<Rightarrow> bool" where
  "is_array_index k =
     (k \<noteq> [] \<and> list_all (\<lambda>c. 48 \<le> uint c \<and> uint c \<le> 57) k \<and>
      (length k = 1 \<or> 49 \<le> uint (hd k)) \<and> index_number k < 4294967295)"

definition own_properties :: "(jsstring \<times> 'v) list \<Rightarrow> (jsstring \<times> 'v) list" where
  "own_properties obj =
     sort_key (\<lambda>p. index_number (fst p)) (filter (\<lambda>p. is_array_index (fst p)) obj)
       @ filter (\<lambda>p. \<not> is_array_index (fst p)) obj"

definition obj_keys :: "(jsstring \<times> 'v) list \<Rightarrow> jsstring list" where
  "obj_keys obj = map fst (own_properties obj)"

definition obj_values :: "(jsstring \<times> 'v) list \<Rightarrow> 'v list" where
  "obj_values obj = map snd (own_properties obj)"

subsection \<open>The content of the stores\<close>

text \<open>
  The object that \<open>getProviderWithKeyInfo\<close> and \<open>getAllProvidersWithKeyInfo\<close> build by
  \<open>{ ...provider, hasKey, keyMasked }\<close>: the fields of the configuration (none when
  \<open>provider\<close> is an inherited member, which has no enumerable property of its own) and
  the two new fields.
\<close>

record ProviderWithKeyInfo =
  provider_fields :: "ProviderConfig option"
  hasKey :: bool
  keyMasked :: "jsstring option"

record stores =
  encryptedKeys :: "(jsstring \<times> jsstring) list"
  providers :: "(jsstring \<times> ProviderConfig) list"
  defaultProvider :: "jsstring option"

datatype exn = Store_failure | Crypto_failure | Type_failure

text \<open>
  \<open>getStore()\<close> and \<open>getProviderStore()\<close> open the two stores; \<open>s.set\<close> writes a value
  back. A failure to open or read, or to write, is a thrown exception.
\<close>

definition getStore :: "platform \<Rightarrow> exn + unit" where
  "getStore pf = (if keys_readable pf then Inr () else Inl Store_failure)"

definition set_encryptedKeys ::
  "platform \<Rightarrow> (jsstring \<times> jsstring) list \<Rightarrow> stores \<Rightarrow> exn + stores" where
  "set_encryptedKeys pf keys st =
     (if keys_writable pf then Inr (st\<lparr>encryptedKeys := keys\<rparr>) else Inl Store_failure)"

definition getProviderStore :: "platform \<Rightarrow> exn + unit" where
  "getProviderStore pf = (if providers_readable pf then Inr () else Inl Store_failure)"

definition set_providers ::
  "platform \<Rightarrow> (jsstring \<times> ProviderConfig) list \<Rightarrow> stores \<Rightarrow> exn + stores" where
  "set_providers pf ps st =
     (if providers_writable pf then Inr (st\<lparr>providers := ps\<rparr>) else Inl Store_failure)"

definition set_defaultProvider :: "platform \<Rightarrow> jsstring option \<Rightarrow> stores \<Rightarrow> exn + stores" where
  "set_defaultProvider pf d st =
     (if providers_writable pf then Inr (st\<lparr>defaultProvider := d\<rparr>) else Inl Store_failure)"

subsection \<open>Keys\<close>

text \<open>
  Each function with a \<open>try\<close> block is a pair: the block itself, where \<open>Inl\<close> is a thrown
  exception, and the function, whose \<open>catch\<close> turns the exception into its value. The
  messages written to the console are left out.
\<close>

definition storeApiKey_try ::
  "platform \<Rightarrow> jsstring \<Rightarrow> jsstring \<Rightarrow> stores \<Rightarrow> exn + bool \<times> stores" where
  "storeApiKey_try pf providerId apiKey st =
     (case getStore pf of
        Inl e \<Rightarrow> Inl e
      | Inr _ \<Rightarrow>
          if \<not> isEncryptionAvailable pf then
            (case set_encryptedKeys pf
                    (obj_set (encryptedKeys st) providerId (base64_encode (utf8_encode apiKey)))
                    st of
               Inl e \<Rightarrow> Inl e
             | Inr st' \<Rightarrow> Inr (True, st'))
          else
            (case encryptString pf apiKey of
               None \<Rightarrow> Inl Crypto_failure
             | Some encrypted \<Rightarrow>
                 (case set_encryptedKeys pf
                         (obj_set (encryptedKeys st) providerId (base64_encode encrypted)) st of
                    Inl e \<Rightarrow> Inl e
                  | Inr st' \<Rightarrow> Inr (True, st'))))"

definition storeApiKey ::
  "platform \<Rightarrow> jsstring \<Rightarrow> jsstring \<Rightarrow> stores \<Rightarrow> (exn + bool) \<times> stores" where
  "storeApiKey pf providerId apiKey st =
     (case storeApiKey_try pf providerId apiKey st of
        Inr (r, st') \<Rightarrow> (Inr r, st')
      | Inl e \<Rightarrow> (Inr False, st))"

text \<open>
  In \<open>getApiKey\<close> the test \<open>!encryptedBase64\<close> holds of \<open>undefined\<close> and of the empty
  string. An inherited member passes the test, and \<open>Buffer.from\<close>, called on it in
  either mode, throws a \<open>TypeError\<close>.
\<close>

definition getApiKey_try :: "platform \<Rightarrow> jsstring \<Rightarrow> stores \<Rightarrow> exn + jsstring option" where
  "getApiKey_try pf providerId st =
     (case getStore pf of
        Inl e \<Rightarrow> Inl e
      | Inr _ \<Rightarrow>
          (case obj_get (encryptedKeys st) providerId of
             Absent \<Rightarrow> Inr None
           | Inherited \<Rightarrow> Inl Type_failure
           | Own encryptedBase64 \<Rightarrow>
               if encryptedBase64 = [] then Inr None
               else if \<not> isEncryptionAvailable pf then
                 Inr (Some (utf8_decode (base64_decode encryptedBase64)))
               else
                 (case decryptString pf (base64_decode encryptedBase64) of
                    None \<Rightarrow> Inl Crypto_failure
                  | Some plain \<Rightarrow> Inr (Some plain))))"

definition getApiKey :: "platform \<Rightarrow> jsstring \<Rightarrow> stores \<Rightarrow> exn + jsstring option" where
  "getApiKey pf providerId st =
     (case getApiKey_try pf providerId st of
        Inr r \<Rightarrow> Inr r
      | Inl e \<Rightarrow> Inr None)"

definition deleteApiKey_try :: "platform \<Rightarrow> jsstring \<Rightarrow> stores \<Rightarrow> exn + bool \<times> stores" where
  "deleteApiKey_try pf providerId st =
     (case getStore pf of
        Inl e \<Rightarrow> Inl e
      | Inr _ \<Rightarrow>
          (case set_encryptedKeys pf (obj_delete (encryptedKeys st) providerId) st of
             Inl e \<Rightarrow> Inl e
           | Inr st' \<Rightarrow> Inr (True, st')))"

definition deleteApiKey :: "platform \<Rightarrow> jsstring \<Rightarrow> stores \<Rightarrow> (exn + bool) \<times> stores" where
  "deleteApiKey pf providerId st =
     (case deleteApiKey_try pf providerId st of
        Inr (r, st') \<Rightarrow> (Inr r, st')
      | Inl e \<Rightarrow> (Inr False, st))"

text \<open>\<open>hasApiKey\<close> and \<open>listStoredKeyIds\<close> have no \<open>try\<close> block.\<close>

definition hasApiKey :: "platform \<Rightarrow> jsstring \<Rightarrow> stores \<Rightarrow> exn + bool" where
  "hasApiKey pf providerId st =
     (case getStore pf of
        Inl e \<Rightarrow> Inl e
      | Inr _ \<Rightarrow> Inr (obj_in providerId (encryptedKeys st)))"

definition listStoredKeyIds :: "platform \<Rightarrow> stores \<Rightarrow> exn + jsstring list" where
  "listStoredKeyIds pf st =
     (case getStore pf of
        Inl e \<Rightarrow> Inl e
      | Inr _ \<Rightarrow> Inr (obj_keys (encryptedKeys st)))"

subsection \<open>Provider configurations\<close>

definition saveProvider :: "platform \<Rightarrow> ProviderConfig \<Rightarrow> stores \<Rightarrow> (exn + unit) \<times> stores" where
  "saveProvider pf config st =
     (case getProviderStore pf of
        Inl e \<Rightarrow> (Inl e, st)
      | Inr _ \<Rightarrow>
          (case set_providers pf (obj_set (providers st) (provider_id config) config) st of
             Inl e \<Rightarrow> (Inl e, st)
           | Inr st' \<Rightarrow> (Inr (), st')))"

text \<open>
  \<open>providers[providerId] || null\<close>: the configuration, or an inherited member, which is
  truthy, or null (\<open>Absent\<close>).
\<close>

definition getProvider :: "platform \<Rightarrow> jsstring \<Rightarrow> stores \<Rightarrow> exn + ProviderConfig member" where
  "getProvider pf providerId st =
     (case getProviderStore pf of
        Inl e \<Rightarrow> Inl e
      | Inr _ \<Rightarrow> Inr (obj_get (providers st) providerId))"

definition getAllProviders :: "platform \<Rightarrow> stores \<Rightarrow> exn + ProviderConfig list" where
  "getAllProviders pf st =
     (case getProviderStore pf of
        Inl e \<Rightarrow> Inl e
      | Inr _ \<Rightarrow> Inr (obj_values (providers st)))"

text \<open>
  The \<open>try\<close> block of \<open>deleteProvider\<close> after its first statement, on the stores that
  \<open>deleteApiKey\<close> has left.
\<close>

definition deleteProvider_config :: "platform \<Rightarrow> jsstring \<Rightarrow> stores \<Rightarrow> exn + bool \<times> stores" where
  "deleteProvider_config pf providerId st1 =
     (case getProviderStore pf of
        Inl e \<Rightarrow> Inl e
      | Inr _ \<Rightarrow>
          (case set_providers pf (obj_delete (providers st1) providerId) st1 of
             Inl e \<Rightarrow> Inl e
           | Inr st2 \<Rightarrow>
               if defaultProvider st2 = Some providerId then
                 (case set_defaultProvider pf None st2 of
                    Inl e \<Rightarrow> Inl e
                  | Inr st3 \<Rightarrow> Inr (True, st3))
               else Inr (True, st2)))"

text \<open>
  \<open>deleteProvider\<close> awaits \<open>deleteApiKey\<close> first and does not look at the boolean it
  resolves to.
\<close>

definition deleteProvider :: "platform \<Rightarrow> jsstring \<Rightarrow> stores \<Rightarrow> (exn + bool) \<times> stores" where
  "deleteProvider pf providerId st =
     (case deleteApiKey pf providerId st of
        (Inl e, st1) \<Rightarrow> (Inr False, st1)
      | (Inr _, st1) \<Rightarrow>
          (case deleteProvider_config pf providerId st1 of
             Inr (r, st') \<Rightarrow> (Inr r, st')
           | Inl e \<Rightarrow> (Inr False, st1)))"

definition setDefaultProvider :: "platform \<Rightarrow> jsstring \<Rightarrow> stores \<Rightarrow> (exn + unit) \<times> stores" where
  "setDefaultProvider pf providerId st =
     (case getProviderStore pf of
        Inl e \<Rightarrow> (Inl e, st)
      | Inr _ \<Rightarrow>
          (case set_defaultProvider pf (Some providerId) st of
             Inl e \<Rightarrow> (Inl e, st)
           | Inr st' \<Rightarrow> (Inr (), st')))"

definition getDefaultProvider :: "platform \<Rightarrow> stores \<Rightarrow> exn + jsstring option" where
  "getDefaultProvider pf st =
     (case getProviderStore pf of
        Inl e \<Rightarrow> Inl e
      | Inr _ \<Rightarrow> Inr (defaultProvider st))"

subsection \<open>The masked key\<close>

text \<open>
  \<open>s.substring(a, b)\<close> clamps both indices to the string and swaps them when the first
  is the larger; \<open>s.substring(a)\<close> runs to the end. \<open>'*'.repeat(n)\<close> is called with
  \<open>n = apiKey.length - 8\<close> where the length exceeds 12 and with \<open>n = apiKey.length\<close>,
  so its count is never negative there; the count is computed on integers as in the
  source. The asterisk is code unit 42.
\<close>

definition substring :: "jsstring \<Rightarrow> int \<Rightarrow> int \<Rightarrow> jsstring" where
  "substring s a b =
     (let n = int (length s);
          a' = max 0 (min a n);
          b' = max 0 (min b n);
          lo = min a' b';
          hi = max a' b'
      in take (nat (hi - lo)) (drop (nat lo) s))"

definition substring_from :: "jsstring \<Rightarrow> int \<Rightarrow> jsstring" where
  "substring_from s a = substring s a (int (length s))"

definition repeat_star :: "int \<Rightarrow> jsstring" where
  "repeat_star n = replicate (nat n) 42"

text \<open>
  The inner conditional of \<open>getProviderWithKeyInfo\<close> and of
  \<open>getAllProvidersWithKeyInfo\<close> (the same text in both), which the specification calls
  \<open>maskKey\<close>.
\<close>

definition maskKey :: "jsstring \<Rightarrow> jsstring" where
  "maskKey apiKey =
     (if int (length apiKey) > 12 then
        substring apiKey 0 4 @ repeat_star (int (length apiKey) - 8)
          @ substring_from apiKey (int (length apiKey) - 4)
      else repeat_star (int (length apiKey)))"

text \<open>
  The object both functions build from a provider and the result of \<open>getApiKey\<close>:
  \<open>if (apiKey)\<close> and \<open>!!apiKey\<close> are false of \<open>null\<close> and of the empty string.
\<close>

definition spread_fields :: "ProviderConfig member \<Rightarrow> ProviderConfig option" where
  "spread_fields provider = (case provider of Own c \<Rightarrow> Some c | Inherited \<Rightarrow> None | Absent \<Rightarrow> None)"

definition with_key_info :: "ProviderConfig member \<Rightarrow> jsstring option \<Rightarrow> ProviderWithKeyInfo" where
  "with_key_info provider apiKey =
     (case apiKey of
        None \<Rightarrow> \<lparr>provider_fields = spread_fields provider, hasKey = False, keyMasked = None\<rparr>
      | Some k \<Rightarrow>
          if k = [] then
            \<lparr>provider_fields = spread_fields provider, hasKey = False, keyMasked = None\<rparr>
          else
            \<lparr>provider_fields = spread_fields provider, hasKey = True,
             keyMasked = Some (maskKey k)\<rparr>)"

definition getProviderWithKeyInfo ::
  "platform \<Rightarrow> jsstring \<Rightarrow> stores \<Rightarrow> exn + ProviderWithKeyInfo option" where
  "getProviderWithKeyInfo pf providerId st =
     (case getProvider pf providerId st of
        Inl e \<Rightarrow> Inl e
      | Inr Absent \<Rightarrow> Inr None
      | Inr provider \<Rightarrow>
          (case getApiKey pf providerId st of
             Inl e \<Rightarrow> Inl e
           | Inr apiKey \<Rightarrow> Inr (Some (with_key_info provider apiKey))))"

fun key_info_loop ::
  "platform \<Rightarrow> stores \<Rightarrow> ProviderConfig list \<Rightarrow> exn + ProviderWithKeyInfo list" where
  "key_info_loop pf st [] = Inr []"
| "key_info_loop pf st (provider # rest) =
     (case getApiKey pf (provider_id provider) st of
        Inl e \<Rightarrow> Inl e
      | Inr apiKey \<Rightarrow>
          (case key_info_loop pf st rest of
             Inl e \<Rightarrow> Inl e
           | Inr results \<Rightarrow> Inr (with_key_info (Own provider) apiKey # results)))"

definition getAllProvidersWithKeyInfo :: "platform \<Rightarrow> stores \<Rightarrow> exn + ProviderWithKeyInfo list" where
  "getAllProvidersWithKeyInfo pf st =
     (case getAllProviders pf st of
        Inl e \<Rightarrow> Inl e
      | Inr ps \<Rightarrow> key_info_loop pf st ps)"

text \<open>The key that \<open>getApiKey\<close> resolves to (it never rejects).\<close>

definition read_key :: "platform \<Rightarrow> jsstring \<Rightarrow> stores \<Rightarrow> jsstring option" where
  "read_key pf providerId st = (case getApiKey pf providerId st of Inr r \<Rightarrow> r | Inl e \<Rightarrow> None)"

subsection \<open>Assumptions on the platform, and concrete stores\<close>

text \<open>
  What the round trip of a key needs. With encryption available, the platform must
  encrypt the key to a non-empty ciphertext that it decrypts to the same key; in the
  fallback, the key must be non-empty and well formed, so that its base64 text is
  truthy and it survives the UTF-8 coding of \<open>Buffer\<close>.
\<close>

definition recoverable :: "platform \<Rightarrow> jsstring \<Rightarrow> bool" where
  "recoverable pf apiKey =
     (if isEncryptionAvailable pf
      then (case encryptString pf apiKey of
              None \<Rightarrow> False
            | Some c \<Rightarrow> c \<noteq> [] \<and> decryptString pf c = Some apiKey)
      else apiKey \<noteq> [] \<and> well_formed apiKey)"

text \<open>
  A weaker assumption: when the platform decrypts what it has encrypted from a key, the
  result is that key.
\<close>

definition sound_on :: "platform \<Rightarrow> jsstring \<Rightarrow> bool" where
  "sound_on pf apiKey =
     (case encryptString pf apiKey of
        None \<Rightarrow> True
      | Some c \<Rightarrow> (case decryptString pf c of None \<Rightarrow> True | Some p \<Rightarrow> p = apiKey))"

text \<open>
  Two platforms with working stores, to run the functions on: one without encryption,
  and one whose cipher is a stand-in for the operating system's (a three-byte tag
  before the reversed UTF-8 bytes; anything else fails to decrypt).
\<close>

definition plain_platform :: platform where
  "plain_platform =
     \<lparr>isEncryptionAvailable = False,
      encryptString = (\<lambda>s. None),
      decryptString = (\<lambda>b. None),
      keys_readable = True, keys_writable = True,
      providers_readable = True, providers_writable = True\<rparr>"

definition cipher_platform :: platform where
  "cipher_platform =
     \<lparr>isEncryptionAvailable = True,
      encryptString = (\<lambda>s. Some (0x76 # 0x31 # 0x30 # rev (utf8_encode s))),
      decryptString = (\<lambda>buf. case buf of
          a # b # c # r \<Rightarrow>
            if a = 0x76 \<and> b = 0x31 \<and> c = 0x30 then Some (utf8_decode (rev r)) else None
        | _ \<Rightarrow> None),
      keys_readable = True, keys_writable = True,
      providers_readable = True, providers_writable = True\<rparr>"

definition empty_stores :: stores where
  "empty_stores = \<lparr>encryptedKeys = [], providers = [], defaultProvider = None\<rparr>"

definition example_config :: ProviderConfig where
  "example_config =
     \<lparr>provider_id = js ''anthropic-1'', name = js ''Anthropic'', provider_type = Anthropic,
      baseUrl = None, model = None, enabled = True,
      createdAt = js ''2026-01-01'', updatedAt = js ''2026-01-01''\<rparr>"

text \<open>
  The stores after a provider has been saved, given the key of the specification's
  scenario and made the default, all without encryption (\<open>example_stores_built\<close> below
  runs the three calls).
\<close>

definition example_stores :: stores where
  "example_stores =
     \<lparr>encryptedKeys = [(js ''anthropic-1'', js ''c2stdGVzdC0xMjM0NTY3ODkw'')],
      providers = [(js ''anthropic-1'', example_config)],
      defaultProvider = Some (js ''anthropic-1'')\<rparr>"

section \<open>Properties of the update controller\<close>

lemmas updater_defs =
  on_event_def updateStatus_def spread_def sendToRenderer_def Let_def
  setMainWindow_def destroy_window_def tag_def window_live_def getStatus_def

lemma tag_on_event: "tag (fst (on_event e u)) = target e"
  by (cases e) (simp_all add: updater_defs)

lemma this_status_on_event:
  "this_status (fst (on_event e u)) = spread (this_status u) (listener_arg e)"
  by (simp add: updater_defs)

lemma progress_kept:
  "\<not> is_progress x \<Longrightarrow> progress (this_status (fst (step x u))) = progress (this_status u)"
  by (cases x rule: is_progress.cases) (simp_all add: updater_defs)

lemma progress_run:
  "list_all (\<lambda>x. \<not> is_progress x) xs \<Longrightarrow>
   progress (this_status (run xs u)) = progress (this_status u)"
proof (induction xs arbitrary: u)
  case Nil
  then show ?case by simp
next
  case (Cons x xs)
  from Cons.prems have "\<not> is_progress x" and rest: "list_all (\<lambda>x. \<not> is_progress x) xs"
    by simp_all
  then have "progress (this_status (fst (step x u))) = progress (this_status u)"
    by (simp add: progress_kept)
  with Cons.IH [OF rest] show ?case by simp
qed

text \<open>
  C2, as amended. The listener of an event writes the tag of that event whatever the
  current tag is; so every transition the specification lists for an event is taken
  when the event is observed in the listed state, but the events are not confined to
  those states. A progress event changes the tag and the progress payload only, a
  failure event records its message. The request handlers (among them the download
  request), attaching a window and the destruction of the window leave the status
  record as it is: it is assigned by the six listeners only.
\<close>

theorem status_written_by_event_alone:
  "tag (fst (step (Event e) u)) = target e \<and>
   (spec_transition (tag u) (Event e) s' \<longrightarrow> tag (fst (step (Event e) u)) = s') \<and>
   this_status (fst (step (Event (Download_progress p)) u)) =
     (this_status u)\<lparr>status := Downloading, progress := Some p\<rparr> \<and>
   this_status (fst (step (Event (Updater_error m)) u)) =
     (this_status u)\<lparr>status := Error, error := Some m\<rparr> \<and>
   this_status (fst (step (Request c) u)) = this_status u \<and>
   this_status (fst (step (Set_window w) u)) = this_status u \<and>
   this_status (fst (step Window_destroyed u)) = this_status u"
proof (intro conjI impI)
  show "tag (fst (step (Event e) u)) = target e"
    by (simp add: tag_on_event)
  show "tag (fst (step (Event e) u)) = s'" if "spec_transition (tag u) (Event e) s'"
    using that by (cases e) (simp_all add: tag_on_event)
  show "this_status (fst (step (Event (Download_progress p)) u)) =
     (this_status u)\<lparr>status := Downloading, progress := Some p\<rparr>"
    by (simp add: updater_defs)
  show "this_status (fst (step (Event (Updater_error m)) u)) =
     (this_status u)\<lparr>status := Error, error := Some m\<rparr>"
    by (simp add: updater_defs)
  show "this_status (fst (step (Request c) u)) = this_status u"
    by simp
  show "this_status (fst (step (Set_window w) u)) = this_status u"
    by (simp add: updater_defs)
  show "this_status (fst (step Window_destroyed u)) = this_status u"
    by (simp add: updater_defs)
qed

theorem status_written_by_event_alone_witness:
  "spec_transition (tag (new_AppUpdater :: (nat, nat) AppUpdater)) (Event Checking_for_update) Checking \<and>
   tag (fst (step (Event Checking_for_update) (new_AppUpdater :: (nat, nat) AppUpdater))) = Checking"
  using status_written_by_event_alone
    [where e = Checking_for_update and u = "new_AppUpdater :: (nat, nat) AppUpdater"
       and s' = Checking]
  by (simp add: tag_def new_AppUpdater_def)

text \<open>
  C2 as it is stated fails. After a check, an update found, a progress event and the
  completion the controller is in \<open>downloaded\<close>; a further check event moves it to
  \<open>checking\<close>, which the listed transitions do not allow. And in \<open>available\<close> the
  download request leaves the tag at \<open>available\<close>.
\<close>

theorem status_relation_counterexample:
  "\<not> follows_spec
       (run [Event Checking_for_update, Event (Update_available 1),
             Event (Download_progress 50), Event (Update_downloaded 1)]
          (new_AppUpdater :: (nat, nat) AppUpdater))
       (Event Checking_for_update) \<and>
   \<not> follows_spec
       (run [Event Checking_for_update, Event (Update_available 1)]
          (new_AppUpdater :: (nat, nat) AppUpdater))
       (Request Update_download)"
  by (simp add: follows_spec_def new_AppUpdater_def updater_defs)

text \<open>
  C4, as amended. An update-found event gives the status \<open>available\<close> with the
  event's info and leaves the other payloads as they were; the status then carries no
  progress payload when no progress event has been observed since the controller was
  created. A failure event gives the status \<open>error\<close> carrying the message.
\<close>

theorem available_and_error_payloads:
  "this_status (fst (on_event (Update_available i) u)) =
     (this_status u)\<lparr>status := Available, info := Some i\<rparr> \<and>
   (list_all (\<lambda>x. \<not> is_progress x) xs \<longrightarrow>
      progress (this_status (fst (on_event (Update_available i) (run xs new_AppUpdater)))) = None) \<and>
   status (this_status (fst (on_event (Updater_error m) u))) = Error \<and>
   error (this_status (fst (on_event (Updater_error m) u))) = Some m"
proof (intro conjI impI)
  show "this_status (fst (on_event (Update_available i) u)) =
     (this_status u)\<lparr>status := Available, info := Some i\<rparr>"
    by (simp add: updater_defs)
  show "progress (this_status (fst (on_event (Update_available i) (run xs new_AppUpdater)))) = None"
    if "list_all (\<lambda>x. \<not> is_progress x) xs"
  proof -
    have "progress (this_status (run xs new_AppUpdater)) = None"
      using progress_run [OF that, of new_AppUpdater] by (simp add: new_AppUpdater_def)
    then show ?thesis by (simp add: updater_defs)
  qed
  show "status (this_status (fst (on_event (Updater_error m) u))) = Error"
    by (simp add: updater_defs)
  show "error (this_status (fst (on_event (Updater_error m) u))) = Some m"
    by (simp add: updater_defs)
qed

theorem available_and_error_payloads_witness:
  "list_all (\<lambda>x. \<not> is_progress x) [Event Checking_for_update :: (nat, nat) input] \<and>
   progress (this_status (fst (on_event (Update_available (1::nat))
      (run [Event Checking_for_update] (new_AppUpdater :: (nat, nat) AppUpdater))))) = None"
  using available_and_error_payloads
    [where xs = "[Event Checking_for_update :: (nat, nat) input]" and i = "1::nat",
      THEN conjunct2, THEN conjunct1]
  by simp

text \<open>
  C4 as it is stated fails: the progress payload of a download stays in the record.
  After a check, an update found and a progress event, a failure event leaves the
  progress in the \<open>error\<close> status; and a second check that finds an update gives an
  \<open>available\<close> status that still carries it.
\<close>

theorem progress_payload_counterexample:
  "progress (this_status (fst (on_event (Updater_error ''net'')
      (run [Event Checking_for_update, Event (Update_available 1), Event (Download_progress 50)]
         (new_AppUpdater :: (nat, nat) AppUpdater))))) = Some 50 \<and>
   this_status (fst (on_event (Update_available 2)
      (run [Event Checking_for_update, Event (Update_available 1), Event (Download_progress 50),
            Event Checking_for_update]
         (new_AppUpdater :: (nat, nat) AppUpdater)))) =
     \<lparr>status = Available, info = Some 2, progress = Some 50, error = None\<rparr>"
  by (simp add: new_AppUpdater_def updater_defs)

text \<open>
  C8, as amended. Every listener replaces the status record by the merge of the old
  record and the fields of its event, and in the same step sends the whole new record
  on \<open>update:status-changed\<close> when a main window is attached and not destroyed; with no
  such window the record changes all the same and nothing is sent. No other input
  changes the record.
\<close>

theorem status_change_notifies_live_window:
  "this_status (fst (on_event e u)) = spread (this_status u) (listener_arg e) \<and>
   snd (on_event e u) =
     (if window_live u then [Send_status_changed (getStatus (fst (on_event e u)))] else [])
       @ [Emit e] \<and>
   this_status (fst (step (Request c) u)) = this_status u \<and>
   this_status (fst (step (Set_window w) u)) = this_status u \<and>
   this_status (fst (step Window_destroyed u)) = this_status u"
proof (intro conjI)
  show "this_status (fst (on_event e u)) = spread (this_status u) (listener_arg e)"
    by (rule this_status_on_event)
  show "snd (on_event e u) =
     (if window_live u then [Send_status_changed (getStatus (fst (on_event e u)))] else [])
       @ [Emit e]"
    by (simp add: updater_defs split: option.split)
  show "this_status (fst (step (Request c) u)) = this_status u"
    by simp
  show "this_status (fst (step (Set_window w) u)) = this_status u"
    by (simp add: updater_defs)
  show "this_status (fst (step Window_destroyed u)) = this_status u"
    by (simp add: updater_defs)
qed

theorem status_change_notifies_live_window_witness:
  "window_live (setMainWindow \<lparr>isDestroyed = False\<rparr> (new_AppUpdater :: (nat, nat) AppUpdater)) \<and>
   snd (on_event Checking_for_update
          (setMainWindow \<lparr>isDestroyed = False\<rparr> (new_AppUpdater :: (nat, nat) AppUpdater))) =
     [Send_status_changed \<lparr>status = Checking, info = None, progress = None, error = None\<rparr>,
      Emit Checking_for_update]"
  using status_change_notifies_live_window
    [where e = Checking_for_update
       and u = "setMainWindow \<lparr>isDestroyed = False\<rparr> (new_AppUpdater :: (nat, nat) AppUpdater)"]
  by (simp add: new_AppUpdater_def updater_defs)

text \<open>
  C8 as it is stated fails on the controller as it is created, before a window is
  attached: the check event changes the status record and no message is sent.
\<close>

theorem silent_status_change_counterexample:
  "this_status (fst (on_event Checking_for_update (new_AppUpdater :: (nat, nat) AppUpdater)))
     \<noteq> this_status (new_AppUpdater :: (nat, nat) AppUpdater) \<and>
   snd (on_event Checking_for_update (new_AppUpdater :: (nat, nat) AppUpdater)) =
     [Emit Checking_for_update]"
  by (simp add: new_AppUpdater_def updater_defs)

text \<open>
  C10. The handler of \<open>update:check\<close> answers \<open>success: true\<close> whatever the library
  call does: \<open>checkForUpdates\<close> never throws, so the \<open>catch\<close> branch of the handler is
  never taken and the reply has no \<open>error\<close> field. The reply to a check that failed is
  the reply to a check that found nothing, and the handler leaves the controller as it
  is: a failure shows in the status only through the library's error event.
\<close>

theorem update_check_always_succeeds:
  "success (handle_update_check lib) \<and>
   reply_error (handle_update_check lib) = None \<and>
   (\<exists>r. checkForUpdates lib = Inr r) \<and>
   handle_update_check (Rejects msg) = handle_update_check (Resolves None) \<and>
   fst (step (Request Update_check) u) = u"
  by (cases lib) (simp_all add: handle_update_check_def checkForUpdates_def)

section \<open>Properties of the credential store\<close>

subsection \<open>The codings of \<open>Buffer\<close>\<close>

lemma unat_byte_of_nat: "n < 256 \<Longrightarrow> unat (of_nat n :: 8 word) = n"
  by (simp add: unat_of_nat)

lemma unat_unit_of_nat: "n < 65536 \<Longrightarrow> unat (of_nat n :: 16 word) = n"
  by (simp add: unat_of_nat)

lemma unat_byte_less: "unat (b :: 8 word) < 256"
  using unsigned_less [of b, where 'a = nat] by simp

lemma unat_unit_less: "unat (c :: 16 word) < 65536"
  using unsigned_less [of c, where 'a = nat] by simp

lemma map_unat_of_nat_bytes: "\<forall>n \<in> set ns. n < 256 \<Longrightarrow> map unat (map of_nat ns :: 8 word list) = ns"
  by (induction ns) (simp_all add: unat_byte_of_nat)

lemma map_unat_of_nat_units: "\<forall>n \<in> set ns. n < 65536 \<Longrightarrow> map unat (map of_nat ns :: 16 word list) = ns"
  by (induction ns) (simp_all add: unat_unit_of_nat)

lemma low_bytes_of_nat:
  "\<forall>n \<in> set ns. n < 256 \<Longrightarrow> map (\<lambda>c. unat c mod 256) (map of_nat ns :: 16 word list) = ns"
  by (induction ns) (simp_all add: unat_of_nat)

lemma map_of_nat_unat: "map of_nat (map unat ws) = (ws :: 'a::len word list)"
  by (induction ws) simp_all

lemma unbase64_b64_char: "n < 64 \<Longrightarrow> unbase64 (b64_char n) = Some n"
  by (auto simp add: unbase64_def b64_char_def)

lemma b64_char_less: "b64_char n < 128"
  by (auto simp add: b64_char_def)

lemma b64_char_not_pad: "n < 64 \<Longrightarrow> b64_char n \<noteq> 61"
  by (auto simp add: b64_char_def)

lemma b64_sextets_char: "n < 64 \<Longrightarrow> b64_sextets (b64_char n # cs) = n # b64_sextets cs"
  by (simp add: unbase64_b64_char b64_char_not_pad)

lemma b64_sextets_pad: "b64_sextets (61 # cs) = []"
  by simp



lemma sextet_bounds:
  fixes a b c :: nat
  assumes "b < 256" and "c < 256"
  shows "a mod 4 * 16 + b div 16 < 64" and "b mod 16 * 4 + c div 64 < 64"
    and "b mod 16 * 4 < 64" and "a mod 4 * 16 < 64"
proof -
  have "b div 16 < 16" "c div 64 < 4" using assms by simp_all
  moreover have "a mod 4 < 4" "b mod 16 < 16" by simp_all
  ultimately show "a mod 4 * 16 + b div 16 < 64" and "b mod 16 * 4 + c div 64 < 64"
    and "b mod 16 * 4 < 64" and "a mod 4 * 16 < 64"
    by linarith+
qed

lemma sextets_to_bytes:
  fixes a b c :: nat
  assumes "b < 256" and "c < 256"
  shows "a div 4 * 4 + (a mod 4 * 16 + b div 16) div 16 = a"
    and "(a mod 4 * 16 + b div 16) mod 16 * 16 + (b mod 16 * 4 + c div 64) div 4 = b"
    and "(b mod 16 * 4 + c div 64) mod 4 * 64 + c mod 64 = c"
    and "(a mod 4 * 16 + b div 16) mod 16 * 16 + (b mod 16 * 4) div 4 = b"
    and "a div 4 * 4 + (a mod 4 * 16) div 16 = a"
  using assms by (simp_all add: div_add1_eq mod_add_eq)

lemma b64_roundtrip_nat:
  "\<forall>b \<in> set bs. b < 256 \<Longrightarrow> b64_bytes (b64_sextets (b64_chars bs)) = bs"
proof (induction bs rule: b64_chars.induct)
  case (1 a b c bs)
  then have a: "a < 256" and b: "b < 256" and c: "c < 256" and rest: "\<forall>b \<in> set bs. b < 256"
    by simp_all
  have "a div 4 < 64" using a by simp
  moreover have "c mod 64 < 64" by simp
  ultimately have "b64_sextets (b64_chars (a # b # c # bs)) =
      a div 4 # (a mod 4 * 16 + b div 16) # (b mod 16 * 4 + c div 64) # c mod 64
        # b64_sextets (b64_chars bs)"
    using sextet_bounds [OF b c]
    by (simp only: b64_chars.simps append_Cons append_Nil b64_sextets_char)
  then have "b64_bytes (b64_sextets (b64_chars (a # b # c # bs))) =
      [a, b, c] @ b64_bytes (b64_sextets (b64_chars bs))"
    using sextets_to_bytes [OF b c] by (simp only: b64_bytes.simps)
  with "1.IH" [OF rest] show ?case by simp
next
  case (2 a b)
  then have a: "a < 256" and b: "b < 256" by simp_all
  have "a div 4 < 64" using a by simp
  then have "b64_sextets (b64_chars [a, b]) = [a div 4, a mod 4 * 16 + b div 16, b mod 16 * 4]"
    using sextet_bounds [OF b b]
    by (simp only: b64_chars.simps append_Cons append_Nil b64_sextets_char b64_sextets_pad)
  then show ?case
    using sextets_to_bytes [OF b b] by (simp only: b64_bytes.simps)
next
  case (3 a)
  then have a: "a < 256" by simp
  have "a div 4 < 64" using a by simp
  then have "b64_sextets (b64_chars [a]) = [a div 4, a mod 4 * 16]"
    using sextet_bounds [OF a a]
    by (simp only: b64_chars.simps append_Cons append_Nil b64_sextets_char b64_sextets_pad)
  then show ?case
    using sextets_to_bytes [OF a a] by (simp only: b64_bytes.simps)
next
  case 4
  then show ?case by simp
qed

lemma b64_chars_less: "\<forall>c \<in> set (b64_chars bs). c < 128"
  by (induction bs rule: b64_chars.induct) (simp_all add: b64_char_less)

lemma b64_chars_Nil: "b64_chars bs = [] \<longleftrightarrow> bs = []"
  by (cases bs rule: b64_chars.cases) simp_all

lemma base64_roundtrip: "base64_decode (base64_encode buf) = buf"
proof -
  let ?bs = "map unat buf"
  have bytes: "\<forall>b \<in> set ?bs. b < 256"
    by (simp add: unat_byte_less)
  have "\<forall>c \<in> set (b64_chars ?bs). c < 256"
    using b64_chars_less [of ?bs] by fastforce
  then have "map (\<lambda>c. unat c mod 256) (map of_nat (b64_chars ?bs) :: 16 word list)
      = b64_chars ?bs"
    by (rule low_bytes_of_nat)
  then have "base64_decode (base64_encode buf) = map of_nat (b64_bytes (b64_sextets (b64_chars ?bs)))"
    by (simp add: base64_decode_def base64_encode_def)
  also have "\<dots> = map of_nat ?bs"
    using b64_roundtrip_nat [OF bytes] by simp
  also have "\<dots> = buf"
    by (rule map_of_nat_unat)
  finally show ?thesis .
qed

lemma base64_encode_Nil: "base64_encode buf = [] \<longleftrightarrow> buf = []"
  by (simp add: base64_encode_def b64_chars_Nil)

lemma utf8_units_Nil: "utf8_units ns = [] \<longleftrightarrow> ns = []"
  by (cases ns rule: utf8_units.cases) (simp_all add: Let_def)

lemma utf8_encode_Nil: "utf8_encode s = [] \<longleftrightarrow> s = []"
  by (simp add: utf8_encode_def utf8_units_Nil)

lemma utf8_one:
  "u < 0x80 \<Longrightarrow> utf8_bytes utf8_start (u # bs) = u # utf8_bytes utf8_start bs"
  by (simp add: utf8_start_def utf8_lead_def)

lemma mod_offset: "x < m \<Longrightarrow> (k * m + x) mod m = (x::nat)"
  by simp

lemma utf8_two:
  assumes "2 \<le> q" and "q < 32" and "r < 64"
  shows "utf8_bytes utf8_start ((0xC0 + q) # (0x80 + r) # bs)
           = (q * 64 + r) # utf8_bytes utf8_start bs"
proof -
  have "(192 + q) mod 32 = q" using mod_offset [of q 32 6] assms(2) by simp
  moreover have "(128 + r) mod 64 = r" using mod_offset [of r 64 2] assms(3) by simp
  moreover have "q * 64 + r < 65536" using assms(2,3) by linarith
  ultimately show ?thesis
    using assms by (auto simp add: utf8_start_def utf8_lead_def utf16_units_def)
qed

lemma utf8_three:
  assumes "a < 16" and "b < 64" and "c < 64"
    and "a = 0 \<longrightarrow> 32 \<le> b" and "a = 13 \<longrightarrow> b < 32"
  shows "utf8_bytes utf8_start ((0xE0 + a) # (0x80 + b) # (0x80 + c) # bs)
           = ((a * 64 + b) * 64 + c) # utf8_bytes utf8_start bs"
proof -
  have "(224 + a) mod 16 = a" using mod_offset [of a 16 14] assms(1) by simp
  moreover have "(128 + b) mod 64 = b" using mod_offset [of b 64 2] assms(2) by simp
  moreover have "(128 + c) mod 64 = c" using mod_offset [of c 64 2] assms(3) by simp
  moreover have "(a * 64 + b) * 64 + c < 65536" using assms(1,2,3) by (simp add: algebra_simps)
  ultimately show ?thesis
    using assms by (auto simp add: utf8_start_def utf8_lead_def utf16_units_def)
qed

lemma utf8_four:
  assumes "a < 5" and "b < 64" and "c < 64" and "d < 64"
    and "a = 0 \<longrightarrow> 16 \<le> b" and "a = 4 \<longrightarrow> b < 16"
  shows "utf8_bytes utf8_start ((0xF0 + a) # (0x80 + b) # (0x80 + c) # (0x80 + d) # bs)
           = utf16_units (((a * 64 + b) * 64 + c) * 64 + d) @ utf8_bytes utf8_start bs"
proof -
  have "(240 + a) mod 8 = a" using mod_offset [of a 8 30] assms(1) by simp
  moreover have "(128 + b) mod 64 = b" using mod_offset [of b 64 2] assms(2) by simp
  moreover have "(128 + c) mod 64 = c" using mod_offset [of c 64 2] assms(3) by simp
  moreover have "(128 + d) mod 64 = d" using mod_offset [of d 64 2] assms(4) by simp
  ultimately show ?thesis
    using assms by (auto simp add: utf8_start_def utf8_lead_def)
qed

lemma digits64: "(x::nat) div 64 * 64 + x mod 64 = x"
  by simp

lemma utf8_two_unit:
  assumes "0x80 \<le> u" and "u < 0x800"
  shows "utf8_bytes utf8_start ((0xC0 + u div 64) # (0x80 + u mod 64) # bs)
           = u # utf8_bytes utf8_start bs"
proof -
  have "2 \<le> u div 64" using assms(1) by simp
  moreover have "u div 64 < 32" using assms(2) by simp
  moreover have "u mod 64 < 64" by simp
  ultimately show ?thesis
    using utf8_two [of "u div 64" "u mod 64" bs] by (simp only: digits64)
qed

lemma utf8_three_unit:
  assumes "0x800 \<le> u" and "u < 0x10000" and "\<not> (0xD800 \<le> u \<and> u < 0xE000)"
  shows "utf8_bytes utf8_start
           ((0xE0 + u div 4096) # (0x80 + u div 64 mod 64) # (0x80 + u mod 64) # bs)
           = u # utf8_bytes utf8_start bs"
proof -
  have d: "u div 4096 = u div 64 div 64" by (simp add: div_mult2_eq)
  have a: "u div 4096 < 16" using assms(2) by simp
  have b: "u div 64 mod 64 < 64" and c: "u mod 64 < 64" by simp_all
  have lo: "u div 4096 = 0 \<longrightarrow> 32 \<le> u div 64 mod 64"
  proof
    assume "u div 4096 = 0"
    then have "u div 64 < 64" using d by (simp add: div_eq_0_iff)
    moreover have "32 \<le> u div 64" using assms(1) by simp
    ultimately show "32 \<le> u div 64 mod 64" by simp
  qed
  have hi: "u div 4096 = 13 \<longrightarrow> u div 64 mod 64 < 32"
  proof
    assume h: "u div 4096 = 13"
    then have "u div 64 div 64 = 13" using d by simp
    then have e: "u div 64 = 13 * 64 + u div 64 mod 64"
      using div_mult_mod_eq [of "u div 64" 64] by simp
    have "u < 0xD800" using h assms(3) by (simp add: not_le) linarith
    then have "u div 64 < 864" by simp
    with e show "u div 64 mod 64 < 32" by linarith
  qed
  have "(u div 4096 * 64 + u div 64 mod 64) * 64 + u mod 64 = u"
    unfolding d by (simp only: digits64)
  then show ?thesis
    using utf8_three [OF a b c lo hi, of bs] by simp
qed

lemma utf8_four_units:
  assumes "0xD800 \<le> u" and "u < 0xDC00" and "0xDC00 \<le> v" and "v < 0xE000"
    and cp: "cp = 0x10000 + (u - 0xD800) * 1024 + (v - 0xDC00)"
  shows "utf8_bytes utf8_start
           ((0xF0 + cp div 262144) # (0x80 + cp div 4096 mod 64) # (0x80 + cp div 64 mod 64)
              # (0x80 + cp mod 64) # bs)
           = u # v # utf8_bytes utf8_start bs"
proof -
  define h where "h = u - 0xD800"
  define l where "l = v - 0xDC00"
  have h: "h < 1024" and l: "l < 1024" and u: "u = 0xD800 + h" and v: "v = 0xDC00 + l"
    using assms(1-4) by (simp_all add: h_def l_def)
  have cp': "cp = 65536 + (h * 1024 + l)"
    using cp by (simp add: h_def l_def)
  have lower: "65536 \<le> cp" and upper: "cp < 1114112"
    using cp' h l by linarith+
  have d2: "cp div 4096 = cp div 64 div 64" by (simp add: div_mult2_eq)
  have d3: "cp div 262144 = cp div 64 div 64 div 64" by (simp add: div_mult2_eq)
  have a: "cp div 262144 < 5" using upper by simp
  have b: "cp div 4096 mod 64 < 64" and c: "cp div 64 mod 64 < 64" and d: "cp mod 64 < 64"
    by simp_all
  have e: "cp div 4096 = cp div 262144 * 64 + cp div 4096 mod 64"
    unfolding d2 d3 by (simp only: digits64)
  have lo: "cp div 262144 = 0 \<longrightarrow> 16 \<le> cp div 4096 mod 64"
  proof
    assume "cp div 262144 = 0"
    with e have "cp div 4096 mod 64 = cp div 4096" by simp
    moreover have "16 \<le> cp div 4096" using lower by simp
    ultimately show "16 \<le> cp div 4096 mod 64" by simp
  qed
  have hi: "cp div 262144 = 4 \<longrightarrow> cp div 4096 mod 64 < 16"
  proof
    assume "cp div 262144 = 4"
    with e have "cp div 4096 = 256 + cp div 4096 mod 64" by simp
    moreover have "cp div 4096 < 272" using upper by simp
    ultimately show "cp div 4096 mod 64 < 16" by linarith
  qed
  have digits: "((cp div 262144 * 64 + cp div 4096 mod 64) * 64 + cp div 64 mod 64) * 64
      + cp mod 64 = cp"
    unfolding d2 d3 by (simp only: digits64)
  have "(h * 1024 + l) div 1024 = h" and "(h * 1024 + l) mod 1024 = l"
    using l by simp_all
  then have "utf16_units cp = [u, v]"
    using lower by (simp add: utf16_units_def cp' u v)
  then show ?thesis
    using utf8_four [OF a b c d lo hi, of bs] by (simp only: digits append_Cons append_Nil)
qed

lemma utf8_replacement:
  "utf8_bytes utf8_start (0xEF # 0xBF # 0xBD # bs) = 0xFFFD # utf8_bytes utf8_start bs"
  using utf8_three_unit [of "0xFFFD" bs] by simp

declare utf8_bytes.simps [simp del]

lemma utf8_bytes_Nil: "utf8_bytes utf8_start [] = []"
  by (simp add: utf8_bytes.simps utf8_start_def)

lemma utf8_units_roundtrip:
  "\<forall>u \<in> set us. u < 65536 \<Longrightarrow> well_formed_units us \<Longrightarrow>
   utf8_bytes utf8_start (utf8_units us) = us"
proof (induction us rule: utf8_units.induct)
  case 1
  then show ?case by (simp add: utf8_bytes_Nil)
next
  case (2 u)
  then have lt: "u < 65536" and ns: "\<not> (0xD800 \<le> u \<and> u < 0xE000)" by simp_all
  note nil = utf8_bytes_Nil
  consider "u < 0x80" | "0x80 \<le> u" "u < 0x800" | "0x800 \<le> u" by linarith
  then show ?case
  proof cases
    case 1
    then show ?thesis using utf8_one [of u "[]"] nil by simp
  next
    case 2
    then show ?thesis using utf8_two_unit [of u "[]"] nil by simp
  next
    case 3
    then show ?thesis using utf8_three_unit [OF 3 lt ns, of "[]"] nil ns by auto
  qed
next
  case (3 u v vs)
  from "3.prems" have lt: "u < 65536" and ltv: "v < 65536" and rest: "\<forall>u \<in> set vs. u < 65536"
    by simp_all
  show ?case
  proof (cases "0xD800 \<le> u \<and> u < 0xDC00")
    case True
    with "3.prems" have low: "0xDC00 \<le> v" "v < 0xE000" and wf: "well_formed_units vs"
      by simp_all
    have ih: "utf8_bytes utf8_start (utf8_units vs) = vs"
      using "3.IH"(3) True low rest wf by simp
    show ?thesis
      using True low ih
        utf8_four_units [of u v "0x10000 + (u - 0xD800) * 1024 + (v - 0xDC00)" "utf8_units vs"]
      by (simp add: Let_def)
  next
    case False
    with "3.prems" have ns: "\<not> (0xD800 \<le> u \<and> u < 0xE000)"
      and wf: "well_formed_units (v # vs)"
      by auto
    have tl: "\<forall>u \<in> set (v # vs). u < 65536" using ltv rest by simp
    consider "u < 0x80" | "0x80 \<le> u" "u < 0x800" | "0x800 \<le> u" by linarith
    then show ?thesis
    proof cases
      case 1
      then show ?thesis
        using "3.IH"(1) tl wf utf8_one [of u "utf8_units (v # vs)"] by simp
    next
      case 2
      then show ?thesis
        using "3.IH"(2) tl wf utf8_two_unit [of u "utf8_units (v # vs)"] by simp
    next
      case 3
      then have "utf8_bytes utf8_start (utf8_units (v # vs)) = v # vs"
        using "3.IH"(5) tl wf ns 3 by auto
      then show ?thesis
        using 3 False ns utf8_three_unit [OF 3 lt ns, of "utf8_units (v # vs)"] by auto
    qed
  qed
qed

lemma utf8_units_bytes: "\<forall>u \<in> set us. u < 65536 \<Longrightarrow> \<forall>b \<in> set (utf8_units us). b < 256"
proof (induction us rule: length_induct)
  case (1 us)
  show ?case
  proof (cases us rule: utf8_units.cases)
    case 1
    then show ?thesis by simp
  next
    case (2 u)
    with "1.prems" have u: "u < 65536" by simp
    have "u div 64 < 32" if "u < 0x800" using that by simp
    then have b2: "0xC0 + u div 64 < 256" if "u < 0x800" using that by fastforce
    have "u div 4096 < 16" using u by simp
    then have b3: "0xE0 + u div 4096 < 256" by linarith
    have "u mod 64 < 64" "u div 64 mod 64 < 64" by simp_all
    then have m: "0x80 + u mod 64 < 256" "0x80 + u div 64 mod 64 < 256" by linarith+
    show ?thesis unfolding 2 using b2 b3 m by simp
  next
    case (3 u v vs)
    with "1.prems" have u: "u < 65536" and v: "v < 65536" and vs: "\<forall>u \<in> set vs. u < 65536"
      by simp_all
    have t1: "\<forall>b \<in> set (utf8_units (v # vs)). b < 256"
      using "1.IH" [THEN spec, of "v # vs"] 3 v vs by simp
    have t2: "\<forall>b \<in> set (utf8_units vs). b < 256"
      using "1.IH" [THEN spec, of vs] 3 vs by simp
    have b2: "0xC0 + u div 64 < 256" if "u < 0x800"
    proof -
      have "u div 64 < 32" using that by simp
      then show ?thesis by linarith
    qed
    have b3: "0xE0 + u div 4096 < 256"
    proof -
      have "u div 4096 < 16" using u by simp
      then show ?thesis by linarith
    qed
    have "u mod 64 < 64" "u div 64 mod 64 < 64"
      by simp_all
    then have m: "0x80 + u mod 64 < 256" "0x80 + u div 64 mod 64 < 256"
      by linarith+
    define cp where "cp = 0x10000 + (u - 0xD800) * 1024 + (v - 0xDC00)"
    have b4: "0xF0 + cp div 262144 < 256" if "u < 0xDC00" "v < 0xE000"
    proof -
      have "cp < 1114112" using that by (simp add: cp_def)
      then have "cp div 262144 < 5" by simp
      then show ?thesis by linarith
    qed
    have "cp div 4096 mod 64 < 64" "cp div 64 mod 64 < 64" "cp mod 64 < 64"
      by simp_all
    then have m4: "0x80 + cp div 4096 mod 64 < 256" "0x80 + cp div 64 mod 64 < 256"
      "0x80 + cp mod 64 < 256"
      by linarith+
    consider "u < 0x80" | "\<not> u < 0x80" "u < 0x800"
      | "\<not> u < 0x800" "0xD800 \<le> u \<and> u < 0xDC00 \<and> 0xDC00 \<le> v \<and> v < 0xE000"
      | "\<not> u < 0x800" "\<not> (0xD800 \<le> u \<and> u < 0xDC00 \<and> 0xDC00 \<le> v \<and> v < 0xE000)"
          "0xD800 \<le> u \<and> u < 0xE000"
      | "\<not> u < 0x800" "\<not> (0xD800 \<le> u \<and> u < 0xDC00 \<and> 0xDC00 \<le> v \<and> v < 0xE000)"
          "\<not> (0xD800 \<le> u \<and> u < 0xE000)"
      by linarith
    then show ?thesis
    proof cases
      case 1
      then show ?thesis using t1 unfolding 3 by simp
    next
      case 2
      then show ?thesis using t1 b2 m unfolding 3 by simp
    next
      case 3
      then have "utf8_units (u # v # vs) =
          [0xF0 + cp div 262144, 0x80 + cp div 4096 mod 64, 0x80 + cp div 64 mod 64,
           0x80 + cp mod 64] @ utf8_units vs"
        by (simp add: cp_def Let_def)
      then show ?thesis using t2 b4 m4 3 unfolding \<open>us = u # v # vs\<close> by simp
    next
      case 4
      then have "utf8_units (u # v # vs) = [0xEF, 0xBF, 0xBD] @ utf8_units (v # vs)"
        by auto
      then show ?thesis using t1 unfolding \<open>us = u # v # vs\<close> by simp
    next
      case 5
      then have "utf8_units (u # v # vs) =
          [0xE0 + u div 4096, 0x80 + u div 64 mod 64, 0x80 + u mod 64] @ utf8_units (v # vs)"
        by auto
      then show ?thesis using t1 b3 m unfolding \<open>us = u # v # vs\<close> by simp
    qed
  qed
qed


lemma utf8_roundtrip: "well_formed s \<Longrightarrow> utf8_decode (utf8_encode s) = s"
proof -
  assume wf: "well_formed s"
  let ?us = "map unat s"
  have units: "\<forall>u \<in> set ?us. u < 65536"
    using unsigned_less [where 'a = nat and 'b = 16] by auto
  then have "\<forall>b \<in> set (utf8_units ?us). b < 256"
    by (rule utf8_units_bytes)
  then have "map unat (map of_nat (utf8_units ?us) :: 8 word list) = utf8_units ?us"
    by (rule map_unat_of_nat_bytes)
  then have "utf8_decode (utf8_encode s) = map of_nat (utf8_bytes utf8_start (utf8_units ?us))"
    by (simp add: utf8_decode_def utf8_encode_def)
  also have "\<dots> = map of_nat ?us"
    using utf8_units_roundtrip [OF units] wf by (simp add: well_formed_def)
  also have "\<dots> = s"
    by (induction s) simp_all
  finally show ?thesis .
qed

subsection \<open>Objects\<close>

lemma proto_inherited: "is_inherited (js ''__proto__'')"
  by (simp add: is_inherited_def object_prototype_names_def)

lemma obj_get_set: "k \<noteq> js ''__proto__'' \<Longrightarrow> obj_get (obj_set obj k v) k = Own v"
  by (simp add: obj_get_def obj_set_def update_conv')

lemma obj_get_set_cases:
  "obj_get (obj_set obj k v) k = Own v \<or> obj_get (obj_set obj k v) k = Inherited"
  by (auto simp add: obj_get_def obj_set_def update_conv' proto_inherited)

lemma obj_in_set: "obj_in k (obj_set obj k v)"
  using dom_update [of k v obj]
  by (auto simp add: obj_in_def obj_set_def proto_inherited)

lemma obj_in_delete: "\<not> is_inherited k \<Longrightarrow> \<not> obj_in k (obj_delete obj k)"
  using delete_notin_dom [of k obj] by (simp add: obj_in_def obj_delete_def)

lemma obj_get_delete: "\<not> is_inherited k \<Longrightarrow> obj_get (obj_delete obj k) k = Absent"
  by (simp add: obj_get_def obj_delete_def delete_conv')


subsection \<open>Storing, reading and deleting a key\<close>

lemmas key_store_defs =
  storeApiKey_def storeApiKey_try_def getApiKey_def getApiKey_try_def
  deleteApiKey_def deleteApiKey_try_def hasApiKey_def listStoredKeyIds_def
  getStore_def set_encryptedKeys_def

lemmas provider_store_defs =
  saveProvider_def getProvider_def getAllProviders_def deleteProvider_def
  deleteProvider_config_def setDefaultProvider_def getDefaultProvider_def
  getProviderStore_def set_providers_def set_defaultProvider_def

lemma storeApiKey_success:
  assumes "storeApiKey pf providerId apiKey st = (Inr True, st')"
  shows "keys_readable pf \<and> keys_writable pf \<and>
         (if isEncryptionAvailable pf
          then \<exists>c. encryptString pf apiKey = Some c \<and>
                 st' = st\<lparr>encryptedKeys := obj_set (encryptedKeys st) providerId (base64_encode c)\<rparr>
          else st' = st\<lparr>encryptedKeys :=
                 obj_set (encryptedKeys st) providerId (base64_encode (utf8_encode apiKey))\<rparr>)"
  using assms by (auto simp add: key_store_defs split: if_splits option.splits)

lemma getApiKey_stored:
  assumes "keys_readable pf" and "obj_get (encryptedKeys st) providerId = Own v" and "v \<noteq> []"
  shows "getApiKey pf providerId st =
           (if isEncryptionAvailable pf
            then (case decryptString pf (base64_decode v) of None \<Rightarrow> Inr None | Some p \<Rightarrow> Inr (Some p))
            else Inr (Some (utf8_decode (base64_decode v))))"
  using assms by (simp add: key_store_defs split: option.splits)


lemma storeApiKey_result:
  "fst (storeApiKey pf providerId apiKey st) =
     Inr (keys_readable pf \<and> keys_writable pf \<and>
          (isEncryptionAvailable pf \<longrightarrow> encryptString pf apiKey \<noteq> None))"
  by (auto simp add: key_store_defs split: option.splits)

lemma getApiKey_never_throws: "\<exists>r. getApiKey pf providerId st = Inr r"
  by (simp add: getApiKey_def split: sum.split)

lemma getApiKey_read_key: "getApiKey pf providerId st = Inr (read_key pf providerId st)"
  using getApiKey_never_throws [of pf providerId st] by (auto simp add: read_key_def)

lemma deleteApiKey_result:
  "deleteApiKey pf providerId st =
     (if keys_readable pf \<and> keys_writable pf
      then (Inr True, st\<lparr>encryptedKeys := obj_delete (encryptedKeys st) providerId\<rparr>)
      else (Inr False, st))"
  by (simp add: key_store_defs)

lemma key_info_loop_results:
  "key_info_loop pf st ps =
     Inr (map (\<lambda>p. with_key_info (Own p) (read_key pf (provider_id p) st)) ps)"
  by (induction ps) (simp_all add: getApiKey_read_key)

lemma storeApiKey_keeps_providers:
  "providers (snd (storeApiKey pf providerId apiKey st)) = providers st"
  by (simp add: key_store_defs split: option.split)

lemma getApiKey_after_store:
  assumes "providerId \<noteq> js ''__proto__''"
    and "recoverable pf apiKey"
    and "storeApiKey pf providerId apiKey st = (Inr True, st')"
  shows "getApiKey pf providerId st' = Inr (Some apiKey)"
proof -
  note s = storeApiKey_success [OF assms(3)]
  then have r: "keys_readable pf" by simp
  show ?thesis
  proof (cases "isEncryptionAvailable pf")
    case True
    with s obtain c where c: "encryptString pf apiKey = Some c"
      and st': "st' = st\<lparr>encryptedKeys := obj_set (encryptedKeys st) providerId (base64_encode c)\<rparr>"
      by auto
    from assms(2) True c have ne: "c \<noteq> []" and d: "decryptString pf c = Some apiKey"
      by (simp_all add: recoverable_def)
    have "obj_get (encryptedKeys st') providerId = Own (base64_encode c)"
      by (simp add: st' obj_get_set [OF assms(1)])
    moreover have "base64_encode c \<noteq> []" using ne by (simp add: base64_encode_Nil)
    ultimately show ?thesis
      using getApiKey_stored [OF r, of st' providerId "base64_encode c"] True d
      by (simp add: base64_roundtrip)
  next
    case False
    with s have st': "st' = st\<lparr>encryptedKeys :=
        obj_set (encryptedKeys st) providerId (base64_encode (utf8_encode apiKey))\<rparr>"
      by simp
    from assms(2) False have ne: "apiKey \<noteq> []" and wf: "well_formed apiKey"
      by (simp_all add: recoverable_def)
    have d: "utf8_decode (utf8_encode apiKey) = apiKey"
      using wf by (rule utf8_roundtrip)
    have "obj_get (encryptedKeys st') providerId = Own (base64_encode (utf8_encode apiKey))"
      by (simp add: st' obj_get_set [OF assms(1)])
    moreover have "base64_encode (utf8_encode apiKey) \<noteq> []"
      using ne by (simp add: base64_encode_Nil utf8_encode_Nil)
    ultimately show ?thesis
      using getApiKey_stored [OF r, of st' providerId "base64_encode (utf8_encode apiKey)"] False d
      by (simp add: base64_roundtrip)
  qed
qed

lemma example_stores_built:
  "snd (setDefaultProvider plain_platform (js ''anthropic-1'')
     (snd (storeApiKey plain_platform (js ''anthropic-1'') (js ''sk-test-1234567890'')
       (snd (saveProvider plain_platform example_config empty_stores)))))
   = example_stores"
  by code_simp

text \<open>A key that ends in a surrogate on its own, through the fallback coding.\<close>

lemma lone_surrogate_encoded: "utf8_encode [0x73, 0x6B, 0xD800] = [0x73, 0x6B, 0xEF, 0xBF, 0xBD]"
  by (simp add: utf8_encode_def)

lemma lone_surrogate_base64: "base64_encode [0x73, 0x6B, 0xEF, 0xBF, 0xBD] = js ''c2vvv70=''"
  by code_simp

lemma lone_surrogate_bytes: "base64_decode (js ''c2vvv70='') = [0x73, 0x6B, 0xEF, 0xBF, 0xBD]"
  by code_simp

lemma lone_surrogate_decoded: "utf8_decode [0x73, 0x6B, 0xEF, 0xBF, 0xBD] = [0x73, 0x6B, 0xFFFD]"
  by (simp add: utf8_decode_def utf8_one utf8_replacement utf8_bytes_Nil)

lemma lone_surrogate_stored:
  "js ''c2vvv70='' \<noteq> [] \<and> js ''anthropic-1'' \<noteq> js ''__proto__''"
  by (simp add: js_def)

text \<open>
  C1, as amended. For every provider id other than \<open>__proto__\<close> and every key that the
  coding in force can give back (\<open>recoverable\<close>: with encryption, the platform decrypts
  its own non-empty ciphertext to the key; in the fallback, the key is non-empty and
  well formed), when \<open>storeApiKey\<close> reports success a following \<open>getApiKey\<close> on the same
  platform returns the key; and this holds whatever was stored under the id before, so
  a second \<open>storeApiKey\<close> replaces the first.
\<close>

theorem store_then_get_roundtrip:
  assumes "providerId \<noteq> js ''__proto__''"
    and "recoverable pf apiKey"
    and "fst (storeApiKey pf providerId apiKey st) = Inr True"
  shows "getApiKey pf providerId (snd (storeApiKey pf providerId apiKey st)) = Inr (Some apiKey) \<and>
         getApiKey pf providerId
           (snd (storeApiKey pf providerId apiKey (snd (storeApiKey pf providerId old st))))
           = Inr (Some apiKey)"
proof
  have "storeApiKey pf providerId apiKey st =
      (Inr True, snd (storeApiKey pf providerId apiKey st))"
    using assms(3) by (simp add: prod_eq_iff)
  then show "getApiKey pf providerId (snd (storeApiKey pf providerId apiKey st)) = Inr (Some apiKey)"
    by (rule getApiKey_after_store [OF assms(1) assms(2)])
next
  let ?st1 = "snd (storeApiKey pf providerId old st)"
  have "fst (storeApiKey pf providerId apiKey ?st1) = Inr True"
    using assms(3) by (simp add: storeApiKey_result)
  then have "storeApiKey pf providerId apiKey ?st1 =
      (Inr True, snd (storeApiKey pf providerId apiKey ?st1))"
    by (simp add: prod_eq_iff)
  then show "getApiKey pf providerId (snd (storeApiKey pf providerId apiKey ?st1)) = Inr (Some apiKey)"
    by (rule getApiKey_after_store [OF assms(1) assms(2)])
qed

theorem store_then_get_roundtrip_witness:
  "(js ''anthropic-1'' \<noteq> js ''__proto__'' \<and>
    recoverable plain_platform (js ''sk-ant-0987654321'') \<and>
    fst (storeApiKey plain_platform (js ''anthropic-1'') (js ''sk-ant-0987654321'') example_stores)
      = Inr True \<and>
    getApiKey plain_platform (js ''anthropic-1'')
      (snd (storeApiKey plain_platform (js ''anthropic-1'') (js ''sk-ant-0987654321'') example_stores))
      = Inr (Some (js ''sk-ant-0987654321''))) \<and>
   (recoverable cipher_platform (js ''sk-ant-0987654321'') \<and>
    fst (storeApiKey cipher_platform (js ''anthropic-1'') (js ''sk-ant-0987654321'') example_stores)
      = Inr True \<and>
    getApiKey cipher_platform (js ''anthropic-1'')
      (snd (storeApiKey cipher_platform (js ''anthropic-1'') (js ''sk-ant-0987654321'') example_stores))
      = Inr (Some (js ''sk-ant-0987654321''))) \<and>
   (recoverable cipher_platform [] \<and>
    fst (storeApiKey cipher_platform (js ''anthropic-1'') [] example_stores) = Inr True \<and>
    getApiKey cipher_platform (js ''anthropic-1'')
      (snd (storeApiKey cipher_platform (js ''anthropic-1'') [] example_stores))
      = Inr (Some []))"
proof -
  have ne: "js ''anthropic-1'' \<noteq> js ''__proto__''"
    by (simp add: js_def)
  have r1: "recoverable plain_platform (js ''sk-ant-0987654321'')"
    by (simp add: recoverable_def plain_platform_def well_formed_def js_def)
  have s1: "fst (storeApiKey plain_platform (js ''anthropic-1'') (js ''sk-ant-0987654321'')
      example_stores) = Inr True"
    by (simp add: storeApiKey_result plain_platform_def)
  have r2: "recoverable cipher_platform (js ''sk-ant-0987654321'')"
    by code_simp
  have s2: "fst (storeApiKey cipher_platform (js ''anthropic-1'') (js ''sk-ant-0987654321'')
      example_stores) = Inr True"
    by (simp add: storeApiKey_result cipher_platform_def)
  have r3: "recoverable cipher_platform []"
    by code_simp
  have s3: "fst (storeApiKey cipher_platform (js ''anthropic-1'') [] example_stores) = Inr True"
    by (simp add: storeApiKey_result cipher_platform_def)
  from ne r1 s1 r2 s2 r3 s3
    store_then_get_roundtrip [OF ne r1 s1, THEN conjunct1]
    store_then_get_roundtrip [OF ne r2 s2, THEN conjunct1]
    store_then_get_roundtrip [OF ne r3 s3, THEN conjunct1]
  show ?thesis by blast
qed

text \<open>
  C1 as it is stated fails in three ways. For the empty key without encryption,
  \<open>storeApiKey\<close> reports success and \<open>getApiKey\<close> then returns null, not the empty
  string, because the stored base64 text is empty and so falsy. A key with a surrogate
  on its own comes back with U+FFFD in its place. And under the provider id
  \<open>__proto__\<close> the assignment stores nothing, so that \<open>getApiKey\<close> returns null after a
  \<open>storeApiKey\<close> that reported success.
\<close>

theorem empty_key_roundtrip_counterexample:
  "fst (storeApiKey plain_platform (js ''anthropic-1'') [] empty_stores) = Inr True \<and>
   getApiKey plain_platform (js ''anthropic-1'')
     (snd (storeApiKey plain_platform (js ''anthropic-1'') [] empty_stores)) = Inr None \<and>
   fst (storeApiKey plain_platform (js ''anthropic-1'') [0x73, 0x6B, 0xD800] empty_stores)
     = Inr True \<and>
   getApiKey plain_platform (js ''anthropic-1'')
     (snd (storeApiKey plain_platform (js ''anthropic-1'') [0x73, 0x6B, 0xD800] empty_stores))
     = Inr (Some [0x73, 0x6B, 0xFFFD]) \<and>
   fst (storeApiKey plain_platform (js ''__proto__'') (js ''sk-test-1234567890'') empty_stores)
     = Inr True \<and>
   getApiKey plain_platform (js ''__proto__'')
     (snd (storeApiKey plain_platform (js ''__proto__'') (js ''sk-test-1234567890'') empty_stores))
     = Inr None"
proof -
  have "fst (storeApiKey plain_platform (js ''anthropic-1'') [] empty_stores) = Inr True \<and>
    getApiKey plain_platform (js ''anthropic-1'')
      (snd (storeApiKey plain_platform (js ''anthropic-1'') [] empty_stores)) = Inr None"
    by code_simp
  moreover have
    "fst (storeApiKey plain_platform (js ''anthropic-1'') [0x73, 0x6B, 0xD800] empty_stores)
       = Inr True \<and>
     getApiKey plain_platform (js ''anthropic-1'')
       (snd (storeApiKey plain_platform (js ''anthropic-1'') [0x73, 0x6B, 0xD800] empty_stores))
       = Inr (Some [0x73, 0x6B, 0xFFFD])"
    using lone_surrogate_stored
    by (simp add: plain_platform_def empty_stores_def key_store_defs obj_set_def obj_get_def
          lone_surrogate_encoded lone_surrogate_base64 lone_surrogate_bytes
          lone_surrogate_decoded)
  moreover have
    "fst (storeApiKey plain_platform (js ''__proto__'') (js ''sk-test-1234567890'') empty_stores)
       = Inr True \<and>
     getApiKey plain_platform (js ''__proto__'')
       (snd (storeApiKey plain_platform (js ''__proto__'') (js ''sk-test-1234567890'')
          empty_stores))
       = Inr None"
    using proto_inherited
    by (simp add: plain_platform_def empty_stores_def key_store_defs obj_set_def obj_get_def)
  ultimately show ?thesis by blast
qed







subsection \<open>Deleting a provider\<close>

lemma deleteProvider_with_working_key_store:
  assumes "keys_readable pf" and "keys_writable pf" and "\<not> is_inherited providerId"
    and "deleteProvider pf providerId st = (Inr True, st')"
  shows "getProvider pf providerId st' = Inr Absent \<and>
         hasApiKey pf providerId st' = Inr False \<and>
         getDefaultProvider pf st' =
           Inr (if defaultProvider st = Some providerId then None else defaultProvider st)"
proof -
  let ?st1 = "st\<lparr>encryptedKeys := obj_delete (encryptedKeys st) providerId\<rparr>"
  have d: "deleteApiKey pf providerId st = (Inr True, ?st1)"
    using assms(1,2) by (simp add: deleteApiKey_result)
  have k: "\<not> obj_in providerId (obj_delete (encryptedKeys st) providerId)"
    using assms(3) by (rule obj_in_delete)
  have m: "obj_get (obj_delete (providers st) providerId) providerId = Absent"
    using assms(3) by (rule obj_get_delete)
  from assms(4) d have "deleteProvider_config pf providerId ?st1 = Inr (True, st')"
    by (simp add: deleteProvider_def split: sum.splits prod.splits)
  then show ?thesis
    using assms(1) k m
    by (auto simp add: provider_store_defs key_store_defs split: if_splits)
qed

text \<open>
  C3: a run on which it fails. The provider of \<open>example_stores\<close> has a key and is the
  default. When the store of the keys can be read but not written, \<open>deleteApiKey\<close>
  fails and returns \<open>false\<close>, \<open>deleteProvider\<close> goes on, removes the configuration and
  the default and reports success; the key is still stored, \<open>hasApiKey\<close> is true and
  \<open>getApiKey\<close> returns it.
\<close>

theorem deleteProvider_success_with_key_left:
  "fst (deleteProvider (plain_platform\<lparr>keys_writable := False\<rparr>) (js ''anthropic-1'')
          example_stores) = Inr True \<and>
   getProvider plain_platform (js ''anthropic-1'')
     (snd (deleteProvider (plain_platform\<lparr>keys_writable := False\<rparr>) (js ''anthropic-1'')
             example_stores)) = Inr Absent \<and>
   getDefaultProvider plain_platform
     (snd (deleteProvider (plain_platform\<lparr>keys_writable := False\<rparr>) (js ''anthropic-1'')
             example_stores)) = Inr None \<and>
   hasApiKey (plain_platform\<lparr>keys_writable := False\<rparr>) (js ''anthropic-1'')
     (snd (deleteProvider (plain_platform\<lparr>keys_writable := False\<rparr>) (js ''anthropic-1'')
             example_stores)) = Inr True \<and>
   getApiKey plain_platform (js ''anthropic-1'')
     (snd (deleteProvider (plain_platform\<lparr>keys_writable := False\<rparr>) (js ''anthropic-1'')
             example_stores)) = Inr (Some (js ''sk-test-1234567890''))"
  by code_simp

subsection \<open>The masked key\<close>

lemma substring_prefix: "0 \<le> b \<Longrightarrow> substring s 0 b = take (nat b) s"
  by (simp add: substring_def Let_def min_def max_def)

lemma substring_from_drop: "0 \<le> a \<Longrightarrow> substring_from s a = drop (nat a) s"
  by (simp add: substring_from_def substring_def Let_def min_def max_def)

lemma maskKey_long:
  "12 < length k \<Longrightarrow>
   maskKey k = take 4 k @ replicate (length k - 8) 42 @ drop (length k - 4) k"
  by (simp add: maskKey_def substring_prefix substring_from_drop repeat_star_def nat_diff_distrib')

lemma maskKey_short: "length k \<le> 12 \<Longrightarrow> maskKey k = replicate (length k) 42"
  by (simp add: maskKey_def repeat_star_def)

lemma length_maskKey: "length (maskKey k) = length k"
  by (cases "12 < length k") (simp_all add: maskKey_long maskKey_short)

lemma with_key_info_fields:
  "hasKey (with_key_info provider apiKey) = (case apiKey of None \<Rightarrow> False | Some k \<Rightarrow> k \<noteq> [])"
  "keyMasked (with_key_info provider apiKey) =
     (case apiKey of None \<Rightarrow> None | Some k \<Rightarrow> if k = [] then None else Some (maskKey k))"
  "provider_fields (with_key_info provider apiKey) = spread_fields provider"
  by (simp_all add: with_key_info_def split: option.split)

lemma getProviderWithKeyInfo_found:
  assumes "getProvider pf providerId st = Inr (Own config)"
  shows "getProviderWithKeyInfo pf providerId st =
           Inr (Some (with_key_info (Own config) (read_key pf providerId st)))"
  using assms by (simp add: getProviderWithKeyInfo_def getApiKey_read_key)

lemma getAllProvidersWithKeyInfo_results:
  assumes "providers_readable pf"
  shows "getAllProvidersWithKeyInfo pf st =
           Inr (map (\<lambda>p. with_key_info (Own p) (read_key pf (provider_id p) st))
                  (obj_values (providers st)))"
  using assms
  by (simp add: getAllProvidersWithKeyInfo_def getAllProviders_def getProviderStore_def
        key_info_loop_results)

text \<open>
  C5, as amended. The mask of a key longer than 12 is its first four code units, then
  asterisks, eight fewer than its length, then its last four code units; the mask of a
  shorter key is asterisks of the key's length; so a key of 16 gives four, eight
  asterisks and four, and a key of 6 gives six asterisks. \<open>getProviderWithKeyInfo\<close>,
  for a provider that exists, and every element of \<open>getAllProvidersWithKeyInfo\<close>
  report this mask of the key that \<open>getApiKey\<close> returns when that key is not empty, and
  no mask (null, with \<open>hasKey\<close> false) when it is empty or null. So after a non-empty
  key has been stored and can be read back, the mask shown is the mask of that key. The
  mask has the length of the key and depends on nothing but that length and the first
  and last four code units; the two functions only read the stores.
\<close>

theorem maskKey_rule:
  "(12 < length k \<longrightarrow>
      maskKey k = take 4 k @ replicate (length k - 8) 42 @ drop (length k - 4) k) \<and>
   (length k \<le> 12 \<longrightarrow> maskKey k = replicate (length k) 42) \<and>
   (length k = 16 \<longrightarrow> maskKey k = take 4 k @ replicate 8 42 @ drop 12 k) \<and>
   (length k = 6 \<longrightarrow> maskKey k = replicate 6 42) \<and>
   length (maskKey k) = length k \<and>
   keyMasked (with_key_info provider key) =
     (case key of None \<Rightarrow> None | Some a \<Rightarrow> if a = [] then None else Some (maskKey a)) \<and>
   hasKey (with_key_info provider key) = (case key of None \<Rightarrow> False | Some a \<Rightarrow> a \<noteq> []) \<and>
   getApiKey pf providerId st = Inr (read_key pf providerId st) \<and>
   (getProvider pf providerId st = Inr (Own config) \<longrightarrow>
      getProviderWithKeyInfo pf providerId st =
        Inr (Some (with_key_info (Own config) (read_key pf providerId st)))) \<and>
   (providers_readable pf \<longrightarrow>
      getAllProvidersWithKeyInfo pf st =
        Inr (map (\<lambda>p. with_key_info (Own p) (read_key pf (provider_id p) st))
               (obj_values (providers st)))) \<and>
   (k \<noteq> [] \<and> providerId \<noteq> js ''__proto__'' \<and> recoverable pf k \<and>
    fst (storeApiKey pf providerId k st) = Inr True \<and>
    getProvider pf providerId st = Inr (Own config) \<longrightarrow>
      getProviderWithKeyInfo pf providerId (snd (storeApiKey pf providerId k st)) =
        Inr (Some \<lparr>provider_fields = Some config, hasKey = True,
                   keyMasked = Some (maskKey k)\<rparr>)) \<and>
   (length k' = length k \<and> take 4 k' = take 4 k \<and>
    drop (length k' - 4) k' = drop (length k - 4) k \<longrightarrow> maskKey k' = maskKey k)"
proof (intro conjI impI)
  show "maskKey k = take 4 k @ replicate (length k - 8) 42 @ drop (length k - 4) k"
    if "12 < length k"
    using that by (rule maskKey_long)
  show "maskKey k = replicate (length k) 42" if "length k \<le> 12"
    using that by (rule maskKey_short)
  show "maskKey k = take 4 k @ replicate 8 42 @ drop 12 k" if "length k = 16"
    using that by (simp add: maskKey_long)
  show "maskKey k = replicate 6 42" if "length k = 6"
    using that by (simp add: maskKey_short)
  show "length (maskKey k) = length k"
    by (rule length_maskKey)
  show "keyMasked (with_key_info provider key) =
     (case key of None \<Rightarrow> None | Some a \<Rightarrow> if a = [] then None else Some (maskKey a))"
    by (rule with_key_info_fields)
  show "hasKey (with_key_info provider key) = (case key of None \<Rightarrow> False | Some a \<Rightarrow> a \<noteq> [])"
    by (rule with_key_info_fields)
  show "getApiKey pf providerId st = Inr (read_key pf providerId st)"
    by (rule getApiKey_read_key)
  show "getProviderWithKeyInfo pf providerId st =
        Inr (Some (with_key_info (Own config) (read_key pf providerId st)))"
    if "getProvider pf providerId st = Inr (Own config)"
    using that by (rule getProviderWithKeyInfo_found)
  show "getAllProvidersWithKeyInfo pf st =
        Inr (map (\<lambda>p. with_key_info (Own p) (read_key pf (provider_id p) st))
               (obj_values (providers st)))"
    if "providers_readable pf"
    using that by (rule getAllProvidersWithKeyInfo_results)
  show "getProviderWithKeyInfo pf providerId (snd (storeApiKey pf providerId k st)) =
        Inr (Some \<lparr>provider_fields = Some config, hasKey = True,
                   keyMasked = Some (maskKey k)\<rparr>)"
    if h: "k \<noteq> [] \<and> providerId \<noteq> js ''__proto__'' \<and> recoverable pf k \<and>
      fst (storeApiKey pf providerId k st) = Inr True \<and>
      getProvider pf providerId st = Inr (Own config)"
  proof -
    let ?st' = "snd (storeApiKey pf providerId k st)"
    from h have "storeApiKey pf providerId k st = (Inr True, ?st')"
      by (simp add: prod_eq_iff)
    with h have key: "getApiKey pf providerId ?st' = Inr (Some k)"
      using getApiKey_after_store [of providerId pf k st ?st'] by simp
    have "providers ?st' = providers st"
      by (rule storeApiKey_keeps_providers)
    with h have "getProvider pf providerId ?st' = Inr (Own config)"
      by (simp add: getProvider_def split: sum.splits)
    with key h show ?thesis
      by (simp add: getProviderWithKeyInfo_def with_key_info_def spread_fields_def)
  qed
  show "maskKey k' = maskKey k"
    if h: "length k' = length k \<and> take 4 k' = take 4 k \<and>
        drop (length k' - 4) k' = drop (length k - 4) k"
  proof -
    from h have l: "length k' = length k" and t: "take 4 k' = take 4 k" by simp_all
    from h have "drop (length k' - 4) k' = drop (length k - 4) k" by (rule conjunct2 [THEN conjunct2])
    then have d: "drop (length k - 4) k' = drop (length k - 4) k" unfolding l .
    show ?thesis
    proof (cases "12 < length k")
      case True
      then have "12 < length k'" using l by simp
      then show ?thesis using True l t d by (simp add: maskKey_long)
    next
      case False
      then show ?thesis using l by (simp add: maskKey_short)
    qed
  qed
qed

theorem maskKey_rule_witness:
  "(12 < length (js ''sk-test-1234567890'') \<and>
    maskKey (js ''sk-test-1234567890'') = js ''sk-t**********7890'') \<and>
   (length (js ''abcdef'') \<le> 12 \<and> length (js ''abcdef'') = 6 \<and>
    maskKey (js ''abcdef'') = js ''******'') \<and>
   (length (js ''0123456789abcdef'') = 16 \<and>
    maskKey (js ''0123456789abcdef'') = js ''0123********cdef'') \<and>
   (getProvider plain_platform (js ''anthropic-1'') example_stores = Inr (Own example_config) \<and>
    read_key plain_platform (js ''anthropic-1'') example_stores = Some (js ''sk-test-1234567890'') \<and>
    getProviderWithKeyInfo plain_platform (js ''anthropic-1'') example_stores =
      Inr (Some \<lparr>provider_fields = Some example_config, hasKey = True,
                 keyMasked = Some (js ''sk-t**********7890'')\<rparr>)) \<and>
   (providers_readable plain_platform \<and>
    getAllProvidersWithKeyInfo plain_platform example_stores =
      Inr [\<lparr>provider_fields = Some example_config, hasKey = True,
            keyMasked = Some (js ''sk-t**********7890'')\<rparr>]) \<and>
   (js ''0123456789abcdef'' \<noteq> [] \<and> js ''anthropic-1'' \<noteq> js ''__proto__'' \<and>
    recoverable plain_platform (js ''0123456789abcdef'') \<and>
    fst (storeApiKey plain_platform (js ''anthropic-1'') (js ''0123456789abcdef'') example_stores)
      = Inr True \<and>
    getProviderWithKeyInfo plain_platform (js ''anthropic-1'')
      (snd (storeApiKey plain_platform (js ''anthropic-1'') (js ''0123456789abcdef'')
         example_stores)) =
      Inr (Some \<lparr>provider_fields = Some example_config, hasKey = True,
                 keyMasked = Some (js ''0123********cdef'')\<rparr>)) \<and>
   (length (js ''sk-tXXXXXXXXXX7890'') = length (js ''sk-test-1234567890'') \<and>
    take 4 (js ''sk-tXXXXXXXXXX7890'') = take 4 (js ''sk-test-1234567890'') \<and>
    drop (length (js ''sk-tXXXXXXXXXX7890'') - 4) (js ''sk-tXXXXXXXXXX7890'')
      = drop (length (js ''sk-test-1234567890'') - 4) (js ''sk-test-1234567890'') \<and>
    maskKey (js ''sk-tXXXXXXXXXX7890'') = maskKey (js ''sk-test-1234567890''))"
proof -
  have a: "12 < length (js ''sk-test-1234567890'')"
    by (simp add: js_def)
  have a': "take 4 (js ''sk-test-1234567890'')
      @ replicate (length (js ''sk-test-1234567890'') - 8) 42
      @ drop (length (js ''sk-test-1234567890'') - 4) (js ''sk-test-1234567890'')
      = js ''sk-t**********7890''"
    by code_simp
  have b: "length (js ''abcdef'') \<le> 12 \<and> length (js ''abcdef'') = 6"
    by (simp add: js_def)
  have b': "replicate 6 42 = js ''******''"
    by code_simp
  have c: "length (js ''0123456789abcdef'') = 16"
    by (simp add: js_def)
  have c': "take 4 (js ''0123456789abcdef'') @ replicate 8 42 @ drop 12 (js ''0123456789abcdef'')
      = js ''0123********cdef''"
    by code_simp
  have d: "getProvider plain_platform (js ''anthropic-1'') example_stores = Inr (Own example_config)"
    by code_simp
  have d': "read_key plain_platform (js ''anthropic-1'') example_stores
      = Some (js ''sk-test-1234567890'')"
    by code_simp
  have p: "providers_readable plain_platform"
    by (simp add: plain_platform_def)
  have v: "obj_values (providers example_stores) = [example_config]"
    by code_simp
  have i: "provider_id example_config = js ''anthropic-1''"
    by (simp add: example_config_def)
  have e: "length (js ''sk-tXXXXXXXXXX7890'') = length (js ''sk-test-1234567890'') \<and>
    take 4 (js ''sk-tXXXXXXXXXX7890'') = take 4 (js ''sk-test-1234567890'') \<and>
    drop (length (js ''sk-tXXXXXXXXXX7890'') - 4) (js ''sk-tXXXXXXXXXX7890'')
      = drop (length (js ''sk-test-1234567890'') - 4) (js ''sk-test-1234567890'')"
    by (simp add: js_def)
  have f: "js ''0123456789abcdef'' \<noteq> [] \<and> js ''anthropic-1'' \<noteq> js ''__proto__''"
    by (simp add: js_def)
  have g: "recoverable plain_platform (js ''0123456789abcdef'')"
    by (simp add: recoverable_def plain_platform_def well_formed_def js_def)
  have s: "fst (storeApiKey plain_platform (js ''anthropic-1'') (js ''0123456789abcdef'')
      example_stores) = Inr True"
    by (simp add: storeApiKey_result plain_platform_def)
  note r1 = maskKey_rule [of "js ''sk-test-1234567890''" "Own example_config"
      "Some (js ''sk-test-1234567890'')" plain_platform "js ''anthropic-1''" example_stores
      example_config "js ''sk-tXXXXXXXXXX7890''"]
  note r2 = maskKey_rule [of "js ''abcdef''" "Own example_config" None plain_platform
      "js ''anthropic-1''" example_stores example_config "js ''abcdef''"]
  note r3 = maskKey_rule [of "js ''0123456789abcdef''" "Own example_config" None plain_platform
      "js ''anthropic-1''" example_stores example_config "js ''0123456789abcdef''"]
  have m1: "maskKey (js ''sk-test-1234567890'') = js ''sk-t**********7890''"
    using r1 a a' by simp
  have m2: "maskKey (js ''abcdef'') = js ''******''"
    using r2 b b' by simp
  have m3: "maskKey (js ''0123456789abcdef'') = js ''0123********cdef''"
    using r3 c c' by simp
  have ne: "js ''sk-test-1234567890'' \<noteq> []"
    by (simp add: js_def)
  have w: "with_key_info (Own example_config) (Some (js ''sk-test-1234567890'')) =
      \<lparr>provider_fields = Some example_config, hasKey = True,
       keyMasked = Some (js ''sk-t**********7890'')\<rparr>"
    using ne by (simp add: with_key_info_def spread_fields_def m1)
  have one: "getProviderWithKeyInfo plain_platform (js ''anthropic-1'') example_stores =
      Inr (Some \<lparr>provider_fields = Some example_config, hasKey = True,
                 keyMasked = Some (js ''sk-t**********7890'')\<rparr>)"
    using r1 d d' w by simp
  have all: "getAllProvidersWithKeyInfo plain_platform example_stores =
      Inr [\<lparr>provider_fields = Some example_config, hasKey = True,
            keyMasked = Some (js ''sk-t**********7890'')\<rparr>]"
    using r1 p v i d' w by simp
  have stored: "getProviderWithKeyInfo plain_platform (js ''anthropic-1'')
      (snd (storeApiKey plain_platform (js ''anthropic-1'') (js ''0123456789abcdef'')
         example_stores)) =
      Inr (Some \<lparr>provider_fields = Some example_config, hasKey = True,
                 keyMasked = Some (js ''0123********cdef'')\<rparr>)"
    using r3 f g s d m3 by simp
  have m4: "maskKey (js ''sk-tXXXXXXXXXX7890'') = maskKey (js ''sk-test-1234567890'')"
    using r1 e by blast
  from a b c d d' p e f g s m1 m2 m3 m4 one all stored show ?thesis by blast
qed

text \<open>
  C5 as it is stated fails for the empty key. Its mask by the rule is the empty string
  of asterisks, but after the empty key has been stored the display carries no mask at
  all: \<open>keyMasked\<close> is null, both without encryption, where \<open>getApiKey\<close> returns null,
  and with it, where \<open>getApiKey\<close> returns the empty key.
\<close>

theorem empty_key_mask_counterexample:
  "maskKey [] = [] \<and>
   fst (storeApiKey plain_platform (js ''anthropic-1'') [] example_stores) = Inr True \<and>
   getProviderWithKeyInfo plain_platform (js ''anthropic-1'')
     (snd (storeApiKey plain_platform (js ''anthropic-1'') [] example_stores)) =
     Inr (Some \<lparr>provider_fields = Some example_config, hasKey = False, keyMasked = None\<rparr>) \<and>
   fst (storeApiKey cipher_platform (js ''anthropic-1'') [] example_stores) = Inr True \<and>
   getApiKey cipher_platform (js ''anthropic-1'')
     (snd (storeApiKey cipher_platform (js ''anthropic-1'') [] example_stores)) = Inr (Some []) \<and>
   getProviderWithKeyInfo cipher_platform (js ''anthropic-1'')
     (snd (storeApiKey cipher_platform (js ''anthropic-1'') [] example_stores)) =
     Inr (Some \<lparr>provider_fields = Some example_config, hasKey = False, keyMasked = None\<rparr>)"
  by code_simp

subsection \<open>The empty key\<close>

text \<open>
  C9. After \<open>storeApiKey\<close> has reported success for the empty key, \<open>hasApiKey\<close> is
  true, while \<open>getProviderWithKeyInfo\<close>, for a provider that exists, reports \<open>hasKey\<close>
  false and no mask; without encryption \<open>getApiKey\<close> returns null. With encryption this
  needs that the platform does not decrypt its own ciphertext of the empty key to
  something else.
\<close>

theorem empty_key_disagreement:
  assumes "fst (storeApiKey pf providerId [] st) = Inr True"
    and "getProvider pf providerId st = Inr (Own provider)"
    and "isEncryptionAvailable pf \<longrightarrow> sound_on pf []"
  shows "hasApiKey pf providerId (snd (storeApiKey pf providerId [] st)) = Inr True \<and>
         (\<exists>r. getProviderWithKeyInfo pf providerId (snd (storeApiKey pf providerId [] st)) = Inr (Some r) \<and>
              \<not> hasKey r \<and> keyMasked r = None) \<and>
         (\<not> isEncryptionAvailable pf \<longrightarrow>
            getApiKey pf providerId (snd (storeApiKey pf providerId [] st)) = Inr None)"
proof -
  let ?st' = "snd (storeApiKey pf providerId [] st)"
  have eq: "storeApiKey pf providerId [] st = (Inr True, ?st')"
    using assms(1) by (simp add: prod_eq_iff)
  note s = storeApiKey_success [OF eq]
  then have r: "keys_readable pf" by simp
  from s obtain v where st': "?st' = st\<lparr>encryptedKeys := obj_set (encryptedKeys st) providerId v\<rparr>"
    and v: "if isEncryptionAvailable pf
            then \<exists>c. encryptString pf [] = Some c \<and> v = base64_encode c
            else v = base64_encode (utf8_encode [])"
    by (cases "isEncryptionAvailable pf") auto
  have "obj_in providerId (encryptedKeys ?st')"
    by (simp add: st' obj_in_set)
  with r have has: "hasApiKey pf providerId ?st' = Inr True"
    by (simp add: hasApiKey_def getStore_def)
  have got: "obj_get (encryptedKeys ?st') providerId = Own v \<or>
             obj_get (encryptedKeys ?st') providerId = Inherited"
    using obj_get_set_cases [of "encryptedKeys st" providerId v] by (simp add: st')
  have key: "getApiKey pf providerId ?st' = Inr None \<or> getApiKey pf providerId ?st' = Inr (Some [])"
  proof (cases "obj_get (encryptedKeys ?st') providerId = Inherited")
    case True
    with r show ?thesis by (simp add: key_store_defs)
  next
    case False
    with got have m: "obj_get (encryptedKeys ?st') providerId = Own v" by simp
    show ?thesis
    proof (cases "v = []")
      case True
      with m r show ?thesis by (simp add: key_store_defs)
    next
      case ne: False
      show ?thesis
      proof (cases "isEncryptionAvailable pf")
        case True
        with v obtain c where c: "encryptString pf [] = Some c" and vc: "v = base64_encode c"
          by auto
        from assms(3) True c have "decryptString pf c = None \<or> decryptString pf c = Some []"
          by (auto simp add: sound_on_def split: option.splits)
        with getApiKey_stored [OF r m ne] True vc show ?thesis
          by (auto simp add: base64_roundtrip)
      next
        case False
        with v have "v = []" by (simp add: base64_encode_def utf8_encode_def)
        with ne show ?thesis by simp
      qed
    qed
  qed
  have fb: "getApiKey pf providerId ?st' = Inr None" if "\<not> isEncryptionAvailable pf"
  proof -
    from v that have "v = []" by (simp add: base64_encode_def utf8_encode_def)
    with got r show ?thesis by (auto simp add: key_store_defs)
  qed
  have "providers ?st' = providers st"
    by (rule storeApiKey_keeps_providers)
  then have prov: "getProvider pf providerId ?st' = Inr (Own provider)"
    using assms(2) by (simp add: getProvider_def split: sum.splits)
  have "\<exists>r. getProviderWithKeyInfo pf providerId ?st' = Inr (Some r) \<and>
              \<not> hasKey r \<and> keyMasked r = None"
    using key prov by (auto simp add: getProviderWithKeyInfo_def with_key_info_fields)
  with has fb show ?thesis by blast
qed

theorem empty_key_disagreement_witness:
  "(fst (storeApiKey plain_platform (js ''anthropic-1'') [] example_stores) = Inr True \<and>
    getProvider plain_platform (js ''anthropic-1'') example_stores = Inr (Own example_config) \<and>
    hasApiKey plain_platform (js ''anthropic-1'')
      (snd (storeApiKey plain_platform (js ''anthropic-1'') [] example_stores)) = Inr True \<and>
    (\<exists>r. getProviderWithKeyInfo plain_platform (js ''anthropic-1'')
           (snd (storeApiKey plain_platform (js ''anthropic-1'') [] example_stores)) = Inr (Some r) \<and>
         \<not> hasKey r \<and> keyMasked r = None) \<and>
    \<not> isEncryptionAvailable plain_platform \<and>
    getApiKey plain_platform (js ''anthropic-1'')
      (snd (storeApiKey plain_platform (js ''anthropic-1'') [] example_stores)) = Inr None) \<and>
   (fst (storeApiKey cipher_platform (js ''anthropic-1'') [] example_stores) = Inr True \<and>
    getProvider cipher_platform (js ''anthropic-1'') example_stores = Inr (Own example_config) \<and>
    isEncryptionAvailable cipher_platform \<and> sound_on cipher_platform [] \<and>
    hasApiKey cipher_platform (js ''anthropic-1'')
      (snd (storeApiKey cipher_platform (js ''anthropic-1'') [] example_stores)) = Inr True \<and>
    (\<exists>r. getProviderWithKeyInfo cipher_platform (js ''anthropic-1'')
           (snd (storeApiKey cipher_platform (js ''anthropic-1'') [] example_stores)) = Inr (Some r) \<and>
         \<not> hasKey r \<and> keyMasked r = None))"
proof -
  have s1: "fst (storeApiKey plain_platform (js ''anthropic-1'') [] example_stores) = Inr True"
    by (simp add: storeApiKey_result plain_platform_def)
  have p1: "getProvider plain_platform (js ''anthropic-1'') example_stores = Inr (Own example_config)"
    by code_simp
  have e1: "\<not> isEncryptionAvailable plain_platform"
    by (simp add: plain_platform_def)
  have s2: "fst (storeApiKey cipher_platform (js ''anthropic-1'') [] example_stores) = Inr True"
    by (simp add: storeApiKey_result cipher_platform_def)
  have p2: "getProvider cipher_platform (js ''anthropic-1'') example_stores = Inr (Own example_config)"
    by code_simp
  have e2: "isEncryptionAvailable cipher_platform \<and> sound_on cipher_platform []"
    by code_simp
  from e1 have h1: "isEncryptionAvailable plain_platform \<longrightarrow> sound_on plain_platform []"
    by simp
  from e2 have h2: "isEncryptionAvailable cipher_platform \<longrightarrow> sound_on cipher_platform []"
    by simp
  from s1 p1 e1 s2 p2 e2
    empty_key_disagreement [OF s1 p1 h1]
    empty_key_disagreement [OF s2 p2 h2]
  show ?thesis by blast
qed

end
